theory Spec2Isabelle
  imports
    Complex_Main
    "HOL-Library.Sublist"
    "HOL-Library.Log_Nat"
    "HOL-Library.Multiset"
    "HOL-Library.Char_ord"
    "HOL-Library.List_Lexorder"
    "HOL-Library.Product_Lexorder"
begin

section \<open>Python text primitives\<close>

text \<open>
  A Python \<open>str\<close> is modelled as a \<open>string\<close>, each \<open>char\<close> standing for one code point
  below 256. The character classes below are those of Python 3 on that range:
  \<open>str.isspace\<close> (used by \<open>strip\<close> and \<open>split\<close>), the Unicode \<open>\w\<close> of the \<open>re\<close> module
  and \<open>str.lower\<close>.
\<close>

definition newline :: char where
  "newline = CHR 0x0A"

definition is_space :: "char \<Rightarrow> bool" where
  "is_space c =
     (let n = (of_char c :: nat)
      in (9 \<le> n \<and> n \<le> 13) \<or> (28 \<le> n \<and> n \<le> 32) \<or> n = 133 \<or> n = 160)"

definition is_word :: "char \<Rightarrow> bool" where
  "is_word c =
     (let n = (of_char c :: nat)
      in (48 \<le> n \<and> n \<le> 57) \<or> (65 \<le> n \<and> n \<le> 90) \<or> n = 95 \<or> (97 \<le> n \<and> n \<le> 122)
         \<or> n = 170 \<or> n = 178 \<or> n = 179 \<or> n = 181 \<or> n = 185 \<or> n = 186
         \<or> (188 \<le> n \<and> n \<le> 190) \<or> (192 \<le> n \<and> n \<le> 214)
         \<or> (216 \<le> n \<and> n \<le> 246) \<or> (248 \<le> n \<and> n \<le> 255))"

definition lower_char :: "char \<Rightarrow> char" where
  "lower_char c =
     (let n = (of_char c :: nat)
      in if (65 \<le> n \<and> n \<le> 90) \<or> (192 \<le> n \<and> n \<le> 214) \<or> (216 \<le> n \<and> n \<le> 222)
         then char_of (n + 32) else c)"

definition lower :: "string \<Rightarrow> string" where
  "lower s = map lower_char s"

definition strip :: "string \<Rightarrow> string" where
  "strip s = rev (dropWhile is_space (rev (dropWhile is_space s)))"

text \<open>\<open>str.split()\<close> without arguments: the maximal runs of non-space characters.\<close>

fun split_aux :: "string \<Rightarrow> string \<Rightarrow> string list" where
  "split_aux cur [] = (if cur = [] then [] else [cur])"
| "split_aux cur (c # cs) =
     (if is_space c then (if cur = [] then split_aux [] cs else cur # split_aux [] cs)
      else split_aux (cur @ [c]) cs)"

definition split :: "string \<Rightarrow> string list" where
  "split s = split_aux [] s"

section \<open>Python floats\<close>

text \<open>
  A Python float is an IEEE 754 double, modelled as the real number it stands for. Every
  operation returns the double nearest to the exact result, a tie going to the even
  significand; \<open>fl\<close> is that rounding. \<open>exponent x\<close> is the integer \<open>e\<close> with
  \<open>2 powi e \<le> \<bar>x\<bar> < 2 powi (e + 1)\<close> (lemma \<open>exponent_bounds\<close>); the doubles of that
  size are the multiples of \<open>2 powi (e - 52)\<close>, and below \<open>2 powi (- 1022)\<close> the spacing
  stays \<open>2 powi (- 1074)\<close>. Overflow is not modelled: the floats here are percentages,
  similarities and lengths of lists, all far below \<open>2 powi 1024\<close>.
\<close>

definition round_half_even :: "real \<Rightarrow> int" where
  "round_half_even y =
     (let f = \<lfloor>y\<rfloor>; d = y - of_int f
      in if d < 1 / 2 then f else if 1 / 2 < d then f + 1
         else if even f then f else f + 1)"

definition exponent :: "real \<Rightarrow> int" where
  "exponent x =
     (let a = \<bar>x\<bar>
      in if 1 \<le> a then bitlen \<lfloor>a\<rfloor> - 1 else - bitlen (\<lceil>1 / a\<rceil> - 1))"

definition fl :: "real \<Rightarrow> real" where
  "fl x =
     (if x = 0 then 0
      else (let e = max (exponent x) (- 1022) - 52
            in of_int (round_half_even (x / 2 powi e)) * 2 powi e))"

text \<open>
  The arithmetic of the source: \<open>+\<close>, \<open>*\<close> and \<open>/\<close> on floats, the conversion of an
  integer (a length) that meets a float, and \<open>/\<close> on two integers, which Python rounds
  once from the exact quotient. The two divisions are used only where the source has
  made sure that the divisor is not zero.
\<close>

definition fadd :: "real \<Rightarrow> real \<Rightarrow> real" where
  "fadd a b = fl (a + b)"

definition fmul :: "real \<Rightarrow> real \<Rightarrow> real" where
  "fmul a b = fl (a * b)"

definition fdiv :: "real \<Rightarrow> real \<Rightarrow> real" where
  "fdiv a b = fl (a / b)"

definition float_of_nat :: "nat \<Rightarrow> real" where
  "float_of_nat n = fl (real n)"

definition int_div :: "nat \<Rightarrow> nat \<Rightarrow> real" where
  "int_div m n = fl (real m / real n)"

text \<open>
  Python's \<open>round(x, 2)\<close> on a float: the exact value of \<open>x\<close> is rounded to two decimals,
  a tie going to the even neighbour, and the result is the double nearest to that decimal.
\<close>

definition round2 :: "real \<Rightarrow> real" where
  "round2 x = fl (of_int (round_half_even (x * 100)) / 100)"

section \<open>Skill-gap analysis (\<open>services/skill_gap.py\<close>)\<close>

datatype py_error = IndexError | ValueError | AttributeError

record weak_match =
  skill :: string
  matched_with :: string
  similarity :: "real option"

record gap_result =
  match_percentage :: real
  strong_matches :: "string list"
  weak_matches :: "weak_match list"
  missing_skills :: "string list"

text \<open>
  The scikit-learn calls of \<open>_calculate_similarities\<close> (fitting a \<open>TfidfVectorizer\<close> on the
  corpus and taking the cosine of row 0 against the other rows) are a parameter:
  \<open>tfidf corpus\<close> is \<open>Some\<close> of the flattened similarity row, or \<open>None\<close> when the library
  raises. \<open>tfidf_shape\<close> is what the library guarantees of the row: one entry for each
  document after the first.
\<close>

type_synonym tfidf_engine = "string list \<Rightarrow> real list option"

definition tfidf_shape :: "tfidf_engine \<Rightarrow> bool" where
  "tfidf_shape tfidf = (\<forall>corpus sims. tfidf corpus = Some sims \<longrightarrow> length sims + 1 = length corpus)"

definition calculate_similarities :: "tfidf_engine \<Rightarrow> string \<Rightarrow> string list \<Rightarrow> real list" where
  "calculate_similarities tfidf target source_list =
     (case tfidf (target # source_list) of
        Some sims \<Rightarrow> sims
      | None \<Rightarrow> replicate (length source_list) 0)"

fun max_list :: "real list \<Rightarrow> real" where
  "max_list [] = 0"
| "max_list [x] = x"
| "max_list (x # y # ys) = max x (max_list (y # ys))"

text \<open>\<open>list.index\<close>: the first position holding the value, \<open>None\<close> for Python's ValueError.\<close>

fun index_of :: "'a \<Rightarrow> 'a list \<Rightarrow> nat option" where
  "index_of v [] = None"
| "index_of v (x # xs) =
     (if x = v then Some 0 else (case index_of v xs of None \<Rightarrow> None | Some i \<Rightarrow> Some (Suc i)))"

definition similarity_threshold :: real where
  "similarity_threshold = fl 0.4"

definition normalize_skills :: "string list \<Rightarrow> string list" where
  "normalize_skills skills = map (\<lambda>s. strip (lower s)) (filter (\<lambda>s. strip s \<noteq> []) skills)"

text \<open>
  The three accumulators of \<open>analyze\<close>, in the order \<open>(strong, weak, missing)\<close>; each loop
  appends to one of them per required skill. The literals \<open>0.9\<close> and \<open>0.4\<close> of the source
  are the doubles nearest to them.
\<close>

type_synonym buckets = "string list \<times> weak_match list \<times> string list"

fun semantic_loop :: "tfidf_engine \<Rightarrow> string list \<Rightarrow> string list \<Rightarrow> buckets \<Rightarrow> py_error + buckets" where
  "semantic_loop tfidf resume_norm [] acc = Inr acc"
| "semantic_loop tfidf resume_norm (req_skill # rest) (strong, weak, missing) =
     (let similarities = calculate_similarities tfidf req_skill resume_norm;
          max_sim = (if similarities = [] then 0 else max_list similarities)
      in if fl 0.9 \<le> max_sim then
           semantic_loop tfidf resume_norm rest (strong @ [req_skill], weak, missing)
         else if similarity_threshold \<le> max_sim then
           (case index_of max_sim similarities of
              None \<Rightarrow> Inl ValueError
            | Some i \<Rightarrow>
                if i < length resume_norm then
                  semantic_loop tfidf resume_norm rest
                    (strong,
                     weak @ [\<lparr>skill = req_skill, matched_with = resume_norm ! i,
                              similarity = Some (round2 max_sim)\<rparr>],
                     missing)
                else Inl IndexError)
         else semantic_loop tfidf resume_norm rest (strong, weak, missing @ [req_skill]))"

text \<open>Python's \<open>a in b\<close> on strings is \<open>sublist a b\<close>; \<open>find\<close> is the inner loop with its \<open>break\<close>.\<close>

fun fallback_loop :: "string list \<Rightarrow> string list \<Rightarrow> buckets \<Rightarrow> buckets" where
  "fallback_loop resume_norm [] acc = acc"
| "fallback_loop resume_norm (req_skill # rest) (strong, weak, missing) =
     (if req_skill \<in> set resume_norm then
        fallback_loop resume_norm rest (strong @ [req_skill], weak, missing)
      else
        (case find (\<lambda>res_skill. sublist req_skill res_skill \<or> sublist res_skill req_skill)
                resume_norm of
           Some res_skill \<Rightarrow>
             fallback_loop resume_norm rest
               (strong,
                weak @ [\<lparr>skill = req_skill, matched_with = res_skill, similarity = None\<rparr>],
                missing)
         | None \<Rightarrow> fallback_loop resume_norm rest (strong, weak, missing @ [req_skill])))"

definition finish :: "nat \<Rightarrow> buckets \<Rightarrow> gap_result" where
  "finish total_req acc =
     (case acc of (strong, weak, missing) \<Rightarrow>
        \<lparr>match_percentage =
           round2 (if 0 < total_req
                   then fmul (fdiv (fadd (float_of_nat (length strong))
                                      (fmul (float_of_nat (length weak)) 0.5))
                                (float_of_nat total_req))
                          100
                   else 0),
         strong_matches = strong, weak_matches = weak, missing_skills = missing\<rparr>)"

definition analyze ::
  "bool \<Rightarrow> tfidf_engine \<Rightarrow> string list \<Rightarrow> string list \<Rightarrow> py_error + gap_result" where
  "analyze sklearn_available tfidf resume_skills required_skills =
     (if resume_skills = [] then
        Inr \<lparr>match_percentage = 0, strong_matches = [], weak_matches = [],
             missing_skills = required_skills\<rparr>
      else
        (let resume_skills_norm = normalize_skills resume_skills;
             required_skills_norm = normalize_skills required_skills;
             total_req = length required_skills_norm
         in if sklearn_available \<and> 0 < length resume_skills_norm \<and> 0 < length required_skills_norm
            then (case semantic_loop tfidf resume_skills_norm required_skills_norm ([], [], []) of
                    Inl e \<Rightarrow> Inl e
                  | Inr acc \<Rightarrow> Inr (finish total_req acc))
            else Inr (finish total_req
                        (fallback_loop resume_skills_norm required_skills_norm ([], [], [])))))"

text \<open>
  Two stand-ins for the library, used to run \<open>analyze\<close> on concrete lists: one that always
  raises (so every similarity is 0), and one that scores equal strings 1, strings related
  by containment 0.5 and all others 0.
\<close>

definition no_tfidf :: tfidf_engine where
  "no_tfidf corpus = None"

definition substring_tfidf :: tfidf_engine where
  "substring_tfidf corpus =
     (case corpus of
        [] \<Rightarrow> None
      | target # source_list \<Rightarrow>
          Some (map (\<lambda>s. if s = target then 1
                         else if sublist target s \<or> sublist s target then 0.5 else 0)
                  source_list))"

text \<open>Vocabulary of the statements about \<open>analyze\<close>.\<close>

definition is_normalized :: "string \<Rightarrow> bool" where
  "is_normalized s = (lower s = s \<and> strip s = s)"

definition result_strings :: "gap_result \<Rightarrow> string set" where
  "result_strings r =
     set (strong_matches r) \<union> skill ` set (weak_matches r) \<union> matched_with ` set (weak_matches r)
     \<union> set (missing_skills r)"

definition required_count :: "string list \<Rightarrow> nat" where
  "required_count required_skills = length (filter (\<lambda>s. strip s \<noteq> []) required_skills)"

definition classified :: "buckets \<Rightarrow> string multiset" where
  "classified acc = (case acc of (strong, weak, missing) \<Rightarrow>
     mset strong + mset (map skill weak) + mset missing)"

definition bucket_strings :: "buckets \<Rightarrow> string set" where
  "bucket_strings acc = (case acc of (strong, weak, missing) \<Rightarrow>
     set strong \<union> skill ` set weak \<union> matched_with ` set weak \<union> set missing)"

section \<open>Compatibility scoring (\<open>services/ats_score.py\<close>)\<close>

text \<open>
  \<open>re.findall(r'\b\w{3,}\b', text)\<close>: a match starts where a run of word characters
  starts, takes the whole run and needs three characters, so the matches are the maximal
  runs of word characters of length at least 3, from left to right.
\<close>

fun word_runs :: "string \<Rightarrow> string \<Rightarrow> string list" where
  "word_runs cur [] = (if cur = [] then [] else [cur])"
| "word_runs cur (c # cs) =
     (if is_word c then word_runs (cur @ [c]) cs
      else (if cur = [] then word_runs [] cs else cur # word_runs [] cs))"

definition findall_words :: "string \<Rightarrow> string list" where
  "findall_words text = filter (\<lambda>w. 3 \<le> length w) (word_runs [] text)"

text \<open>
  The class defines \<open>_extract_keywords\<close> twice; the second definition, which filters stop
  words, is the one in effect. The stop-word set is NLTK's English list when that is
  installed and \<open>fallback_stop_words\<close> otherwise, so it is a parameter.
\<close>

definition fallback_stop_words :: "string set" where
  "fallback_stop_words =
     set [''this'', ''that'', ''with'', ''from'', ''and'', ''the'', ''for'', ''are'', ''also'',
          ''your'', ''have'', ''been'', ''was'']"

definition extract_keywords :: "string set \<Rightarrow> string \<Rightarrow> string set" where
  "extract_keywords stop_words text =
     set (filter (\<lambda>w. w \<notin> stop_words) (findall_words (lower text)))"

text \<open>
  \<open>resume_data\<close> is the parser's dictionary; \<open>get\<close> with a default reads a missing key as
  the empty string (an absent \<open>sections\<close> entry is the empty map).
\<close>

record resume_data =
  raw_text :: string
  sections :: "string \<rightharpoonup> string"

definition get_section :: "(string \<rightharpoonup> string) \<Rightarrow> string \<Rightarrow> string" where
  "get_section secs name = (case secs name of None \<Rightarrow> [] | Some v \<Rightarrow> v)"

text \<open>
  The weights as the source writes them, and as the doubles the dictionary holds.
\<close>

definition weight_literals :: "(string \<times> real) list" where
  "weight_literals =
     [(''keywords'', 0.40), (''experience'', 0.30), (''projects'', 0.15),
      (''certifications'', 0.10), (''formatting'', 0.05)]"

definition weights :: "(string \<times> real) list" where
  "weights = map (\<lambda>(name, literal). (name, fl literal)) weight_literals"

definition weight :: "string \<Rightarrow> real" where
  "weight name = the (map_of weights name)"

text \<open>
  Each sub-result is the dictionary the method returns: the score and the other entries,
  \<open>None\<close> for a key the branch does not set. \<open>list(s)\<close> on a Python set lists its
  elements in an order the language does not fix, so that conversion is a parameter,
  \<open>set_to_list\<close>.
\<close>

record keywords_result =
  keywords_score :: real
  matching_keywords :: "string list"
  missing_keywords :: "string list"

record experience_result =
  experience_score :: real
  experience_message :: "string option"
  relevant_terms_found :: "string list option"

record projects_result =
  projects_score :: real
  projects_message :: "string option"
  word_count :: "nat option"

record formatting_result =
  formatting_score :: real
  missing_sections :: "string list"

record score_breakdown =
  breakdown_keywords :: keywords_result
  breakdown_experience :: experience_result
  breakdown_projects :: projects_result
  breakdown_certifications :: real
  breakdown_formatting :: formatting_result

record score_result =
  overall_score :: real
  breakdown :: score_breakdown

definition score_keywords ::
  "(string set \<Rightarrow> string list) \<Rightarrow> string set \<Rightarrow> resume_data \<Rightarrow> string \<Rightarrow> keywords_result"
where
  "score_keywords set_to_list stop_words rd jd =
     (let jd_keywords = extract_keywords stop_words jd;
          resume_text = lower (raw_text rd @ '' '' @ get_section (sections rd) ''skills'');
          resume_keywords = extract_keywords stop_words resume_text;
          matches = jd_keywords \<inter> resume_keywords;
          missing = jd_keywords - resume_keywords;
          match_ratio = (if jd_keywords = {} then 0
                         else int_div (card matches) (card jd_keywords))
      in \<lparr>keywords_score = min (fmul match_ratio 100) 100,
          matching_keywords = take 10 (set_to_list matches),
          missing_keywords = take 10 (set_to_list missing)\<rparr>)"

definition score_experience ::
  "(string set \<Rightarrow> string list) \<Rightarrow> string set \<Rightarrow> string \<Rightarrow> string \<Rightarrow> experience_result"
where
  "score_experience set_to_list stop_words exp_text jd =
     (if strip exp_text = [] then
        \<lparr>experience_score = 0, experience_message = Some ''No experience section found.'',
         relevant_terms_found = None\<rparr>
      else
        (let jd_keywords = extract_keywords stop_words jd;
             exp_keywords = extract_keywords stop_words exp_text;
             matches = jd_keywords \<inter> exp_keywords
         in \<lparr>experience_score =
               min (fmul (fdiv (float_of_nat (card matches))
                            (if jd_keywords = {} then 1
                             else fmul (float_of_nat (card jd_keywords)) 0.5))
                      100)
                   100,
             experience_message = None,
             relevant_terms_found = Some (take 5 (set_to_list matches))\<rparr>))"

definition score_projects :: "string \<Rightarrow> projects_result" where
  "score_projects project_text =
     (if strip project_text = [] then
        \<lparr>projects_score = 0, projects_message = Some ''No projects section found.'',
         word_count = None\<rparr>
      else
        (let n = length (split project_text)
         in \<lparr>projects_score = (if 100 < n then 100 else if 50 < n then 70 else 40),
             projects_message = None, word_count = Some n\<rparr>))"

definition score_certifications :: "string \<Rightarrow> real" where
  "score_certifications cert_text = (if strip cert_text = [] then 0 else 100)"

definition score_formatting :: "(string \<rightharpoonup> string) \<Rightarrow> formatting_result" where
  "score_formatting secs =
     (let required = [''education'', ''experience'', ''skills''];
          found = filter (\<lambda>s. strip (get_section secs s) \<noteq> []) required
      in \<lparr>formatting_score = fmul (int_div (length found) (length required)) 100,
          missing_sections = filter (\<lambda>s. s \<notin> set found) required\<rparr>)"

definition weighted_total :: "score_breakdown \<Rightarrow> real" where
  "weighted_total b =
     fadd (fadd (fadd (fadd
       (fmul (keywords_score (breakdown_keywords b)) (weight ''keywords''))
       (fmul (experience_score (breakdown_experience b)) (weight ''experience'')))
       (fmul (projects_score (breakdown_projects b)) (weight ''projects'')))
       (fmul (breakdown_certifications b) (weight ''certifications'')))
       (fmul (formatting_score (breakdown_formatting b)) (weight ''formatting''))"

definition calculate_score ::
  "(string set \<Rightarrow> string list) \<Rightarrow> string set \<Rightarrow> resume_data \<Rightarrow> string \<Rightarrow> score_result"
where
  "calculate_score set_to_list stop_words rd job_description =
     (let secs = sections rd;
          b = \<lparr>breakdown_keywords = score_keywords set_to_list stop_words rd job_description,
               breakdown_experience =
                 score_experience set_to_list stop_words (get_section secs ''experience'')
                   job_description,
               breakdown_projects = score_projects (get_section secs ''projects''),
               breakdown_certifications = score_certifications (get_section secs ''certifications''),
               breakdown_formatting = score_formatting secs\<rparr>
      in \<lparr>overall_score = round2 (weighted_total b), breakdown = b\<rparr>)"

text \<open>A small parsed resume on which the scorer is run below.\<close>

definition example_resume :: resume_data where
  "example_resume =
     \<lparr>raw_text = ''Python developer'',
      sections = [''skills'' \<mapsto> ''Python, SQL'', ''certifications'' \<mapsto> ''AWS'']\<rparr>"

section \<open>Role retrieval (\<open>services/vector_store.py\<close>)\<close>

text \<open>
  The store holds the FAISS index (\<open>None\<close> until one is created, otherwise the vectors
  added so far), the metadata list and the embedding model (\<open>None\<close> when loading it
  failed). The module flag \<open>VECTOR_SEARCH_AVAILABLE\<close> and the library's
  \<open>index.search\<close> are parameters; a hit is a distance with the position of the vector,
  \<open>-1\<close> where the index has fewer than \<open>k\<close> vectors.
\<close>

type_synonym vec = "real list"

record 'role vector_store =
  index :: "vec list option"
  roles_metadata :: "'role list"
  model :: "(string \<Rightarrow> vec) option"

type_synonym faiss_search = "vec list \<Rightarrow> vec \<Rightarrow> int \<Rightarrow> py_error + (real \<times> int) list"

definition ntotal :: "'role vector_store \<Rightarrow> nat" where
  "ntotal store = (case index store of None \<Rightarrow> 0 | Some vectors \<Rightarrow> length vectors)"

text \<open>
  The result loop. A role is returned with its distance (the code stores it in the copy
  under \<open>similarity_score\<close>). A position below \<open>-1\<close> would index the list from its end.
\<close>

fun collect_roles :: "'role list \<Rightarrow> (real \<times> int) list \<Rightarrow> py_error + ('role \<times> real) list" where
  "collect_roles metadata [] = Inr []"
| "collect_roles metadata ((distance, idx) # rest) =
     (if idx \<noteq> -1 \<and> idx < int (length metadata) then
        (if idx < - int (length metadata) then Inl IndexError
         else
           (let role = metadata ! nat (if idx < 0 then int (length metadata) + idx else idx)
            in case collect_roles metadata rest of
                 Inl e \<Rightarrow> Inl e
               | Inr results \<Rightarrow> Inr ((role, distance) # results)))
      else collect_roles metadata rest)"

definition search_similar_roles ::
  "bool \<Rightarrow> faiss_search \<Rightarrow> 'role vector_store \<Rightarrow> string \<Rightarrow> int \<Rightarrow> py_error + ('role \<times> real) list"
where
  "search_similar_roles vector_search_available search store query k =
     (if \<not> vector_search_available \<or> index store = None \<or> ntotal store = 0 then Inr []
      else
        (case model store of
           None \<Rightarrow> Inl AttributeError
         | Some encode \<Rightarrow>
             (case search (the (index store)) (encode query) k of
                Inl e \<Rightarrow> Inl e
              | Inr hits \<Rightarrow> collect_roles (roles_metadata store) hits)))"

text \<open>A search that raises whenever it is called, to show where the index is not consulted.\<close>

definition failing_search :: faiss_search where
  "failing_search vectors query k = Inl ValueError"

section \<open>Section segmentation (\<open>services/resume_parser.py\<close>)\<close>

definition sections_patterns :: "(string \<times> string list) list" where
  "sections_patterns =
     [(''education'',
         [''EDUCATION'', ''ACADEMIC BACKGROUND'', ''QUALIFICATIONS'', ''Education'',
          ''Academic Background'']),
      (''experience'',
         [''EXPERIENCE'', ''WORK EXPERIENCE'', ''PROFESSIONAL EXPERIENCE'',
          ''EMPLOYMENT HISTORY'', ''Experience'', ''Work Experience'']),
      (''skills'',
         [''SKILLS'', ''TECHNICAL SKILLS'', ''CORE COMPETENCIES'', ''TECHNOLOGIES'', ''Skills'',
          ''Technical Skills'']),
      (''projects'',
         [''PROJECTS'', ''ACADEMIC PROJECTS'', ''PERSONAL PROJECTS'', ''Projects'',
          ''Key Projects'']),
      (''certifications'',
         [''CERTIFICATIONS'', ''CERTIFICATES'', ''COURSES'', ''Certifications'',
          ''Certificates''])]"

text \<open>
  Every pattern is a literal between two \<open>\b\<close>. \<open>at_boundary\<close> is \<open>\b\<close>: exactly one of
  the characters before and at the position is a word character (none beyond either end
  of the text). \<open>finditer\<close> lists the starts of the non-overlapping matches from left to
  right: after a match the scan resumes at its end.
\<close>

definition at_boundary :: "string \<Rightarrow> nat \<Rightarrow> bool" where
  "at_boundary text i =
     ((0 < i \<and> is_word (text ! (i - 1))) \<noteq> (i < length text \<and> is_word (text ! i)))"

definition matches_at :: "string \<Rightarrow> string \<Rightarrow> nat \<Rightarrow> bool" where
  "matches_at text literal i =
     (at_boundary text i \<and> take (length literal) (drop i text) = literal
      \<and> at_boundary text (i + length literal))"

function finditer :: "string \<Rightarrow> string \<Rightarrow> nat \<Rightarrow> nat list" where
  "finditer text literal pos =
     (if length text < pos then []
      else if matches_at text literal pos
           then pos # finditer text literal (pos + max 1 (length literal))
           else finditer text literal (pos + 1))"
  by pat_completeness auto
termination
  by (relation "measure (\<lambda>(text, literal, pos). length text + 1 - pos)") auto

text \<open>
  The line around a match, as the loop body computes it: from one past the last newline
  before \<open>start\<close> (\<open>rfind\<close> gives \<open>-1\<close> when there is none) to the first newline at or
  after \<open>end\<close> (the end of the text when there is none), stripped.
\<close>

definition line_start :: "string \<Rightarrow> nat \<Rightarrow> nat" where
  "line_start text start =
     (case index_of newline (rev (take start text)) of
        None \<Rightarrow> 0
      | Some j \<Rightarrow> length (take start text) - j)"

definition line_end :: "string \<Rightarrow> nat \<Rightarrow> nat" where
  "line_end text end_pos =
     (case index_of newline (drop end_pos text) of
        None \<Rightarrow> length text
      | Some j \<Rightarrow> end_pos + j)"

definition slice :: "string \<Rightarrow> nat \<Rightarrow> nat \<Rightarrow> string" where
  "slice text i j = take (j - i) (drop i text)"

definition header_line :: "string \<Rightarrow> string \<Rightarrow> nat \<Rightarrow> bool" where
  "header_line text literal start =
     (length (strip (slice text (line_start text start)
                       (line_end text (start + length literal)))) < 50)"

text \<open>
  The loop over the matches of one pattern: the first match on a short line is appended
  and the \<open>break\<close> leaves this loop. The loop over the patterns of the section goes on
  with the next pattern.
\<close>

definition pattern_headers :: "string \<Rightarrow> string \<Rightarrow> string \<Rightarrow> (nat \<times> string) list" where
  "pattern_headers text section_name pattern =
     (case find (header_line text pattern) (finditer text pattern 0) of
        None \<Rightarrow> []
      | Some start \<Rightarrow> [(start, section_name)])"

definition header_indices :: "string \<Rightarrow> (nat \<times> string) list" where
  "header_indices text =
     concat (map (\<lambda>(section_name, patterns).
                    concat (map (pattern_headers text section_name) patterns))
               sections_patterns)"

definition empty_sections :: "string \<rightharpoonup> string" where
  "empty_sections =
     [''education'' \<mapsto> [], ''experience'' \<mapsto> [], ''skills'' \<mapsto> [], ''projects'' \<mapsto> [],
      ''certifications'' \<mapsto> [], ''others'' \<mapsto> []]"

definition section_content :: "string \<Rightarrow> nat \<Rightarrow> nat \<Rightarrow> string" where
  "section_content text start_idx end_idx =
     (let content = strip (slice text start_idx end_idx)
      in if newline \<in> set content
         then strip (dropWhile (\<lambda>c. c \<noteq> newline) content)
         else content)"

fun slice_sections ::
  "string \<Rightarrow> (nat \<times> string) list \<Rightarrow> (string \<rightharpoonup> string) \<Rightarrow> (string \<rightharpoonup> string)" where
  "slice_sections text [] secs = secs"
| "slice_sections text ((start_idx, section_name) # rest) secs =
     (let end_idx = (case rest of [] \<Rightarrow> length text | (next_idx, next_name) # later \<Rightarrow> next_idx)
      in slice_sections text rest
           (secs(section_name \<mapsto> section_content text start_idx end_idx)))"

definition segment_sections :: "string \<Rightarrow> (string \<rightharpoonup> string)" where
  "segment_sections text =
     (let sorted_headers = sort (header_indices text)
      in if sorted_headers = [] then empty_sections(''others'' \<mapsto> text)
         else slice_sections text sorted_headers empty_sections)"

text \<open>The five section names that have header patterns.\<close>

definition section_names :: "string set" where
  "section_names = {''education'', ''experience'', ''skills'', ''projects'', ''certifications''}"

section \<open>Facts about floats\<close>

lemma exponent_bounds:
  assumes "x \<noteq> 0"
  shows "2 powi (exponent x) \<le> \<bar>x\<bar> \<and> \<bar>x\<bar> < 2 powi (exponent x + 1)"
proof (cases "1 \<le> \<bar>x\<bar>")
  case True
  define n where "n = \<lfloor>\<bar>x\<bar>\<rfloor>"
  have n1: "1 \<le> n" using True by (simp add: n_def le_floor_iff)
  then have npos: "0 < n" by simp
  define b where "b = bitlen n"
  from bitlen_bounds [OF npos]
  have lo: "2 ^ nat (b - 1) \<le> n" and hi: "n < 2 ^ nat b" by (simp_all add: b_def)
  have b1: "1 \<le> b"
  proof (rule ccontr)
    assume "\<not> 1 \<le> b"
    then have "nat b = 0" by simp
    with hi have "n < 1" by simp
    with n1 show False by simp
  qed
  have e: "exponent x = b - 1" using True by (simp add: exponent_def n_def b_def)
  have "real_of_int (2 ^ nat (b - 1)) \<le> real_of_int n" using lo by (simp only: of_int_le_iff)
  also have "real_of_int n \<le> \<bar>x\<bar>" by (simp add: n_def)
  finally have A: "(2::real) powi (b - 1) \<le> \<bar>x\<bar>"
    using b1 by (simp add: power_int_def)
  have "\<bar>x\<bar> < real_of_int n + 1" by (simp add: n_def)
  also have "real_of_int n + 1 \<le> real_of_int (2 ^ nat b)"
  proof -
    have "n + 1 \<le> 2 ^ nat b" using hi by simp
    then have "real_of_int (n + 1) \<le> real_of_int (2 ^ nat b)" by (simp only: of_int_le_iff)
    then show ?thesis by simp
  qed
  finally have B: "\<bar>x\<bar> < (2::real) powi b"
    using b1 by (simp add: power_int_def)
  from A B show ?thesis by (simp add: e)
next
  case False
  define a where "a = \<bar>x\<bar>"
  have a0: "0 < a" using assms by (simp add: a_def)
  have a1: "a < 1" using False by (simp add: a_def)
  define m where "m = \<lceil>1 / a\<rceil> - 1"
  have inv: "1 < 1 / a" using a0 a1 by simp
  then have "2 \<le> \<lceil>1 / a\<rceil>" by (simp add: le_ceiling_iff) 
  then have m1: "1 \<le> m" by (simp add: m_def)
  then have mpos: "0 < m" by simp
  have mlt: "real_of_int m < 1 / a" unfolding m_def by linarith
  have mge: "1 / a \<le> real_of_int m + 1" unfolding m_def by simp
  define b where "b = bitlen m"
  from bitlen_bounds [OF mpos]
  have lo: "2 ^ nat (b - 1) \<le> m" and hi: "m < 2 ^ nat b" by (simp_all add: b_def)
  have b1: "1 \<le> b"
  proof (rule ccontr)
    assume "\<not> 1 \<le> b"
    then have "nat b = 0" by simp
    with hi have "m < 1" by simp
    with m1 show False by simp
  qed
  have e: "exponent x = - b" using False by (simp add: exponent_def a_def m_def b_def)
  have "1 / a \<le> real_of_int (2 ^ nat b)"
  proof -
    have "m + 1 \<le> 2 ^ nat b" using hi by simp
    then have "real_of_int (m + 1) \<le> real_of_int (2 ^ nat b)" by (simp only: of_int_le_iff)
    with mge show ?thesis by simp
  qed
  then have "1 / a \<le> 2 ^ nat b" by simp
  then have "1 \<le> 2 ^ nat b * a" using a0 by (simp add: divide_le_eq)
  then have "1 / 2 ^ nat b \<le> a" by (simp add: divide_le_eq mult.commute)
  then have A: "(2::real) powi (- b) \<le> a"
    using b1 by (simp add: power_int_def field_simps)
  have "real_of_int (2 ^ nat (b - 1)) \<le> real_of_int m" using lo by (simp only: of_int_le_iff)
  then have "(2::real) ^ nat (b - 1) \<le> real_of_int m" by simp
  with mlt have "2 ^ nat (b - 1) < 1 / a" by linarith
  then have "2 ^ nat (b - 1) * a < 1" using a0 by (simp add: less_divide_eq)
  then have "a < 1 / 2 ^ nat (b - 1)" by (simp add: less_divide_eq mult.commute)
  then have B: "a < (2::real) powi (- b + 1)"
  proof (cases "b = 1")
    case True
    with \<open>a < 1 / 2 ^ nat (b - 1)\<close> show ?thesis by simp
  next
    case False
    with b1 have "- b + 1 < 0" by simp
    moreover have "nat (- (- b + 1)) = nat (b - 1)" by simp
    ultimately show ?thesis using \<open>a < 1 / 2 ^ nat (b - 1)\<close>
      by (simp add: power_int_def field_simps)
  qed
  from A B show ?thesis by (simp add: e a_def)
qed

lemma exponent_unique:
  assumes "2 powi e \<le> \<bar>x\<bar>" and "\<bar>x\<bar> < 2 powi (e + 1)"
  shows "exponent x = e"
proof -
  have "(0::real) < 2 powi e" by simp
  with assms(1) have "0 < \<bar>x\<bar>" by linarith
  then have "x \<noteq> 0" by simp
  from exponent_bounds [OF this]
  have lo: "2 powi (exponent x) \<le> \<bar>x\<bar>" and hi: "\<bar>x\<bar> < 2 powi (exponent x + 1)" by simp_all
  have "\<not> exponent x < e"
  proof
    assume "exponent x < e"
    then have "exponent x + 1 \<le> e" by simp
    then have "(2::real) powi (exponent x + 1) \<le> 2 powi e"
      by (intro power_int_increasing) simp_all
    with hi assms(1) show False by linarith
  qed
  moreover have "\<not> e < exponent x"
  proof
    assume "e < exponent x"
    then have "e + 1 \<le> exponent x" by simp
    then have "(2::real) powi (e + 1) \<le> 2 powi (exponent x)"
      by (intro power_int_increasing) simp_all
    with lo assms(2) show False by linarith
  qed
  ultimately show ?thesis by simp
qed

lemma fl_eval:
  assumes "2 powi e \<le> \<bar>x\<bar>" and "\<bar>x\<bar> < 2 powi (e + 1)" and "- 1022 \<le> e"
  shows "fl x = of_int (round_half_even (x / 2 powi (e - 52))) * 2 powi (e - 52)"
proof -
  have "(0::real) < 2 powi e" by simp
  with assms(1) have "0 < \<bar>x\<bar>" by linarith
  then have "x \<noteq> 0" by simp
  moreover have "max (exponent x) (- 1022) = e"
    using exponent_unique [OF assms(1,2)] assms(3) by simp
  ultimately show ?thesis by (simp add: fl_def Let_def)
qed

lemma round_half_even_bounds:
  "\<lfloor>y\<rfloor> \<le> round_half_even y \<and> round_half_even y \<le> \<lfloor>y\<rfloor> + 1"
  by (auto simp: round_half_even_def Let_def)

lemma round_half_even_of_int: "round_half_even (of_int k) = k"
  by (simp add: round_half_even_def)

lemma round_half_even_mono:
  assumes "y \<le> z"
  shows "round_half_even y \<le> round_half_even z"
proof (cases "\<lfloor>y\<rfloor> = \<lfloor>z\<rfloor>")
  case False
  from assms have "\<lfloor>y\<rfloor> \<le> \<lfloor>z\<rfloor>" by (rule floor_mono)
  with False have "\<lfloor>y\<rfloor> + 1 \<le> \<lfloor>z\<rfloor>" by simp
  then show ?thesis
    using round_half_even_bounds [of y] round_half_even_bounds [of z] by linarith
next
  case True
  have "y - of_int \<lfloor>z\<rfloor> \<le> z - of_int \<lfloor>z\<rfloor>" using assms by simp
  then show ?thesis
    unfolding round_half_even_def Let_def True by (auto split: if_splits)
qed

lemma fl_zero: "fl 0 = 0"
  by (simp add: fl_def)

lemma fl_nonneg:
  assumes "0 \<le> x"
  shows "0 \<le> fl x"
proof (cases "x = 0")
  case True
  then show ?thesis by (simp add: fl_def)
next
  case False
  define e where "e = max (exponent x) (- 1022) - 52"
  have "0 \<le> x / 2 powi e" using assms by simp
  then have "0 \<le> \<lfloor>x / 2 powi e\<rfloor>" by simp
  then have "0 \<le> round_half_even (x / 2 powi e)"
    using round_half_even_bounds [of "x / 2 powi e"] by linarith
  then have "0 \<le> of_int (round_half_even (x / 2 powi e)) * (2::real) powi e" by simp
  then show ?thesis using False by (simp add: fl_def Let_def e_def)
qed

lemma scaled_round_le:
  assumes "x \<le> of_int k * 2 powi e"
  shows "of_int (round_half_even (x / 2 powi e)) * 2 powi e \<le> of_int k * (2::real) powi e"
proof -
  have pos: "(0::real) < 2 powi e" by simp
  from assms have "x / 2 powi e \<le> of_int k" using pos by (simp add: divide_le_eq)
  then have "round_half_even (x / 2 powi e) \<le> round_half_even (of_int k)"
    by (rule round_half_even_mono)
  then have "round_half_even (x / 2 powi e) \<le> k" by (simp add: round_half_even_of_int)
  then have "(of_int (round_half_even (x / 2 powi e)) :: real) \<le> of_int k" by simp
  then show ?thesis using pos by (simp add: mult_right_mono)
qed

lemma scaled_round_ge:
  assumes "of_int k * 2 powi e \<le> x"
  shows "of_int k * (2::real) powi e \<le> of_int (round_half_even (x / 2 powi e)) * 2 powi e"
proof -
  have pos: "(0::real) < 2 powi e" by simp
  from assms have "of_int k \<le> x / 2 powi e" using pos by (simp add: le_divide_eq)
  then have "round_half_even (of_int k) \<le> round_half_even (x / 2 powi e)"
    by (rule round_half_even_mono)
  then have "k \<le> round_half_even (x / 2 powi e)" by (simp add: round_half_even_of_int)
  then have "(of_int k :: real) \<le> of_int (round_half_even (x / 2 powi e))" by simp
  then show ?thesis using pos by (simp add: mult_right_mono)
qed

lemma pow2_shift: "of_int (2 ^ 53) * (2::real) powi (c - 52) = 2 powi (c + 1)"
proof -
  have "(2::real) powi (c + 1) = 2 powi (c - 52) * 2 powi 53"
    using power_int_add [of "2::real" "c - 52" 53] by (simp add: add.commute)
  then show ?thesis by (simp add: mult.commute)
qed

lemma pow2_shift': "of_int (2 ^ 52) * (2::real) powi (c - 52) = 2 powi c"
proof -
  have "(2::real) powi c = 2 powi (c - 52) * 2 powi 52"
    using power_int_add [of "2::real" "c - 52" 52] by simp
  then show ?thesis by (simp add: mult.commute)
qed

lemma fl_mono:
  assumes "0 \<le> x" and "x \<le> y"
  shows "fl x \<le> fl y"
proof (cases "x = 0")
  case True
  then show ?thesis using fl_nonneg [of y] assms by (simp add: fl_zero)
next
  case False
  with assms have xpos: "0 < x" and ypos: "0 < y" by simp_all
  define cx where "cx = max (exponent x) (- 1022)"
  define cy where "cy = max (exponent y) (- 1022)"
  have fx: "fl x = of_int (round_half_even (x / 2 powi (cx - 52))) * 2 powi (cx - 52)"
    using xpos by (simp add: fl_def Let_def cx_def)
  have fy: "fl y = of_int (round_half_even (y / 2 powi (cy - 52))) * 2 powi (cy - 52)"
    using ypos by (simp add: fl_def Let_def cy_def)
  from exponent_bounds [of x] xpos
  have xlo: "2 powi (exponent x) \<le> x" and xhi: "x < 2 powi (exponent x + 1)" by simp_all
  from exponent_bounds [of y] ypos
  have ylo: "2 powi (exponent y) \<le> y" and yhi: "y < 2 powi (exponent y + 1)" by simp_all
  have ee: "exponent x \<le> exponent y"
  proof (rule ccontr)
    assume "\<not> exponent x \<le> exponent y"
    then have "exponent y + 1 \<le> exponent x" by simp
    then have "(2::real) powi (exponent y + 1) \<le> 2 powi (exponent x)"
      by (intro power_int_increasing) simp_all
    with xlo yhi assms(2) show False by linarith
  qed
  then have cc: "cx \<le> cy" by (simp add: cx_def cy_def)
  show ?thesis
  proof (cases "cx = cy")
    case True
    have "x / 2 powi (cy - 52) \<le> y / 2 powi (cy - 52)"
      using assms(2) by (simp add: divide_right_mono)
    then have "round_half_even (x / 2 powi (cy - 52)) \<le> round_half_even (y / 2 powi (cy - 52))"
      by (rule round_half_even_mono)
    then have "(of_int (round_half_even (x / 2 powi (cy - 52))) :: real)
        \<le> of_int (round_half_even (y / 2 powi (cy - 52)))"
      by simp
    then show ?thesis unfolding fx fy True by (simp add: mult_right_mono)
  next
    case False
    with cc have lt: "cx + 1 \<le> cy" by simp
    then have "- 1022 < cy" by (simp add: cx_def)
    then have cy_e: "cy = exponent y" by (simp add: cy_def)
    have "exponent x + 1 \<le> cx + 1" by (simp add: cx_def)
    then have "(2::real) powi (exponent x + 1) \<le> 2 powi (cx + 1)"
      by (intro power_int_increasing) simp_all
    with xhi have "x \<le> 2 powi (cx + 1)" by linarith
    then have "x \<le> of_int (2 ^ 53) * 2 powi (cx - 52)" by (simp only: pow2_shift)
    then have "fl x \<le> of_int (2 ^ 53) * 2 powi (cx - 52)"
      unfolding fx by (rule scaled_round_le)
    then have A: "fl x \<le> 2 powi (cx + 1)" by (simp only: pow2_shift)
    have "of_int (2 ^ 52) * 2 powi (cy - 52) \<le> y" using ylo by (simp only: pow2_shift' cy_e)
    then have "of_int (2 ^ 52) * 2 powi (cy - 52) \<le> fl y"
      unfolding fy by (rule scaled_round_ge)
    then have B: "2 powi cy \<le> fl y" by (simp only: pow2_shift')
    have "(2::real) powi (cx + 1) \<le> 2 powi cy"
      using lt by (intro power_int_increasing) simp_all
    with A B show ?thesis by linarith
  qed
qed

lemma fl_of_nat:
  assumes "n < 2 ^ 53"
  shows "fl (real n) = real n"
proof (cases "n = 0")
  case True
  then show ?thesis by (simp add: fl_zero)
next
  case False
  then have pos: "0 < real n" by simp
  define e where "e = exponent (real n)"
  from exponent_bounds [of "real n"] pos
  have lo: "2 powi e \<le> real n" and hi: "real n < 2 powi (e + 1)" by (simp_all add: e_def)
  have e0: "0 \<le> e"
  proof (rule ccontr)
    assume "\<not> 0 \<le> e"
    then have "e + 1 \<le> 0" by simp
    then have "(2::real) powi (e + 1) \<le> 2 powi 0" by (intro power_int_increasing) simp_all
    with hi have "real n < 1" by simp
    with False show False by simp
  qed
  have e52: "e \<le> 52"
  proof (rule ccontr)
    assume "\<not> e \<le> 52"
    then have "53 \<le> e" by simp
    then have "(2::real) powi 53 \<le> 2 powi e" by (intro power_int_increasing) simp_all
    with lo have "(2::real) ^ 53 \<le> real n" by simp
    moreover have "real n < 2 ^ 53" using assms by (metis of_nat_less_iff of_nat_numeral of_nat_power)
    ultimately show False by simp
  qed
  define k where "k = nat (52 - e)"
  have u: "(2::real) powi (e - 52) = 1 / 2 ^ k"
    using e52 by (simp add: power_int_def k_def field_simps) 
  have "real n / 2 powi (e - 52) = of_int (int n * 2 ^ k)" by (simp add: u)
  then have "round_half_even (real n / 2 powi (e - 52)) = int n * 2 ^ k"
    by (simp only: round_half_even_of_int)
  then have "of_int (round_half_even (real n / 2 powi (e - 52))) * 2 powi (e - 52) = real n"
    by (simp add: u)
  moreover have "max (exponent (real n)) (- 1022) = e" using e0 by (simp add: e_def)
  ultimately show ?thesis using False by (simp add: fl_def Let_def)
qed

lemma fl_numeral:
  "numeral k < (2::nat) ^ 53 \<Longrightarrow> fl (numeral k) = numeral k"
  using fl_of_nat [of "numeral k"] by simp

lemma fl_one: "fl 1 = 1"
  using fl_of_nat [of 1] by simp

lemma round2_range:
  assumes "0 \<le> x" and "x \<le> 100"
  shows "0 \<le> round2 x \<and> round2 x \<le> 100"
proof -
  let ?y = "x * 100"
  let ?r = "round_half_even ?y"
  have y: "0 \<le> ?y" "?y \<le> 10000" using assms by auto
  have lo: "0 \<le> ?r"
  proof -
    have "0 \<le> \<lfloor>?y\<rfloor>" using y(1) by simp
    then show ?thesis using round_half_even_bounds [of ?y] by linarith
  qed
  have hi: "?r \<le> 10000"
  proof -
    have "?y \<le> of_int 10000" using y(2) by simp
    then have "?r \<le> round_half_even (of_int 10000)" by (rule round_half_even_mono)
    then show ?thesis by (simp only: round_half_even_of_int)
  qed
  from lo have a: "0 \<le> (of_int ?r :: real) / 100" by simp
  from hi have "(of_int ?r :: real) \<le> 10000" by (metis of_int_le_iff of_int_numeral)
  then have b: "(of_int ?r :: real) / 100 \<le> 100" by simp
  have "fl (of_int ?r / 100) \<le> fl 100" using a b by (rule fl_mono)
  moreover have "fl 100 = 100" by (simp add: fl_numeral)
  moreover have "0 \<le> fl (of_int ?r / 100)" using a by (rule fl_nonneg)
  ultimately show ?thesis by (simp add: round2_def)
qed

lemma round2_zero: "round2 0 = 0"
  by (simp add: round2_def round_half_even_def fl_zero)

lemmas float_ops = fadd_def fmul_def fdiv_def float_of_nat_def int_div_def

section \<open>Facts about the skill-gap loops\<close>

lemma fallback_loop_classified:
  "classified (fallback_loop rn reqs (strong, weak, missing))
     = classified (strong, weak, missing) + mset reqs"
proof (induction reqs arbitrary: strong weak missing)
  case Nil
  show ?case by simp
next
  case (Cons r rest)
  have step: "\<And>s w m. classified (fallback_loop rn rest (s, w, m)) = classified (s, w, m) + mset rest"
    by (rule Cons.IH)
  show ?case
    by (simp add: step split: option.splits) (simp add: classified_def)
qed

lemma bucket_strings_step:
  "bucket_strings acc \<subseteq> B \<union> {r} \<union> N \<Longrightarrow> X \<subseteq> bucket_strings acc \<union> R \<union> N \<Longrightarrow>
   X \<subseteq> B \<union> set (r # R') \<union> N" if "R = set R'"
  using that by auto

lemma fallback_loop_strings:
  "bucket_strings (fallback_loop rn reqs (strong, weak, missing))
     \<subseteq> bucket_strings (strong, weak, missing) \<union> set reqs \<union> set rn"
proof (induction reqs arbitrary: strong weak missing)
  case Nil
  show ?case by simp
next
  case (Cons r rest)
  let ?B = "bucket_strings (strong, weak, missing)"
  show ?case
  proof (cases "r \<in> set rn")
    case True
    have sub: "bucket_strings (strong @ [r], weak, missing) \<subseteq> ?B \<union> {r} \<union> set rn"
      by (auto simp: bucket_strings_def)
    show ?thesis
      using bucket_strings_step [OF refl sub Cons.IH] True by simp
  next
    case False
    show ?thesis
    proof (cases "find (\<lambda>res_skill. sublist r res_skill \<or> sublist res_skill r) rn")
      case None
      have sub: "bucket_strings (strong, weak, missing @ [r]) \<subseteq> ?B \<union> {r} \<union> set rn"
        by (auto simp: bucket_strings_def)
      show ?thesis
        using bucket_strings_step [OF refl sub Cons.IH] False None by simp
    next
      case (Some x)
      then have "x \<in> set rn" by (auto simp: find_Some_iff)
      then have sub: "bucket_strings
          (strong, weak @ [\<lparr>skill = r, matched_with = x, similarity = None\<rparr>], missing)
          \<subseteq> ?B \<union> {r} \<union> set rn"
        by (auto simp: bucket_strings_def)
      show ?thesis
        using bucket_strings_step [OF refl sub Cons.IH] False Some by simp
    qed
  qed
qed

lemma fallback_loop_missing:
  "set (snd (snd (fallback_loop rn reqs (strong, weak, missing)))) = set missing \<union>
     {r \<in> set reqs. r \<notin> set rn \<and> (\<forall>x \<in> set rn. \<not> sublist r x \<and> \<not> sublist x r)}"
proof (induction reqs arbitrary: strong weak missing)
  case Nil
  show ?case by simp
next
  case (Cons r rest)
  show ?case
  proof (cases "r \<in> set rn")
    case True
    then show ?thesis by (auto simp: Cons.IH)
  next
    case False
    show ?thesis
    proof (cases "find (\<lambda>res_skill. sublist r res_skill \<or> sublist res_skill r) rn")
      case None
      then have "\<forall>x \<in> set rn. \<not> sublist r x \<and> \<not> sublist x r"
        by (auto simp: find_None_iff)
      then show ?thesis using False None by (auto simp: Cons.IH)
    next
      case (Some x)
      then have "x \<in> set rn \<and> (sublist r x \<or> sublist x r)" by (auto simp: find_Some_iff)
      then show ?thesis using False Some by (auto simp: Cons.IH)
    qed
  qed
qed

lemma length_calculate_similarities:
  assumes "tfidf_shape tfidf"
  shows "length (calculate_similarities tfidf target src) = length src"
proof (cases "tfidf (target # src)")
  case None
  then show ?thesis by (simp add: calculate_similarities_def)
next
  case (Some sims)
  with assms have "length sims + 1 = length (target # src)"
    unfolding tfidf_shape_def by blast
  with Some show ?thesis by (simp add: calculate_similarities_def)
qed

lemma max_list_mem: "xs \<noteq> [] \<Longrightarrow> max_list xs \<in> set xs"
  by (induction xs rule: max_list.induct) (auto simp: max_def)

lemma index_of_mem: "v \<in> set xs \<Longrightarrow> \<exists>i. index_of v xs = Some i \<and> i < length xs"
  by (induction xs) auto

lemma semantic_loop_total:
  assumes "tfidf_shape tfidf" and "rn \<noteq> []"
  shows "\<exists>acc'. semantic_loop tfidf rn reqs (strong, weak, missing) = Inr acc'"
proof (induction reqs arbitrary: strong weak missing)
  case Nil
  show ?case by simp
next
  case (Cons r rest)
  define sims where "sims = calculate_similarities tfidf r rn"
  have len: "length sims = length rn"
    unfolding sims_def by (rule length_calculate_similarities [OF assms(1)])
  with assms(2) have ne: "sims \<noteq> []" by auto
  then obtain i where i: "index_of (max_list sims) sims = Some i" "i < length sims"
    using index_of_mem [OF max_list_mem] by blast
  show ?case
    using Cons.IH ne i len by (simp add: sims_def [symmetric] Let_def)
qed

lemma semantic_loop_classified:
  "semantic_loop tfidf rn reqs (strong, weak, missing) = Inr acc' \<Longrightarrow>
   classified acc' = classified (strong, weak, missing) + mset reqs"
proof (induction reqs arbitrary: strong weak missing)
  case Nil
  then show ?case by auto
next
  case (Cons r rest)
  from Cons.prems show ?case
    by (auto simp: Let_def classified_def dest!: Cons.IH split: if_splits option.splits)
qed

lemma semantic_loop_strings:
  "semantic_loop tfidf rn reqs (strong, weak, missing) = Inr acc' \<Longrightarrow>
   bucket_strings acc' \<subseteq> bucket_strings (strong, weak, missing) \<union> set reqs \<union> set rn"
proof (induction reqs arbitrary: strong weak missing)
  case Nil
  then show ?case by auto
next
  case (Cons r rest)
  let ?B = "bucket_strings (strong, weak, missing)"
  define sims where "sims = calculate_similarities tfidf r rn"
  define max_sim where "max_sim = (if sims = [] then 0 else max_list sims)"
  have prem: "(if fl 0.9 \<le> max_sim then
           semantic_loop tfidf rn rest (strong @ [r], weak, missing)
         else if similarity_threshold \<le> max_sim then
           (case index_of max_sim sims of
              None \<Rightarrow> Inl ValueError
            | Some i \<Rightarrow>
                if i < length rn then
                  semantic_loop tfidf rn rest
                    (strong,
                     weak @ [\<lparr>skill = r, matched_with = rn ! i,
                              similarity = Some (round2 max_sim)\<rparr>],
                     missing)
                else Inl IndexError)
         else semantic_loop tfidf rn rest (strong, weak, missing @ [r])) = Inr acc'"
    using Cons.prems unfolding max_sim_def sims_def by (simp only: semantic_loop.simps Let_def)
  show ?case
  proof (cases "fl 0.9 \<le> max_sim")
    case True
    with prem have run: "semantic_loop tfidf rn rest (strong @ [r], weak, missing) = Inr acc'"
      by simp
    have sub: "bucket_strings (strong @ [r], weak, missing) \<subseteq> ?B \<union> {r} \<union> set rn"
      by (auto simp: bucket_strings_def)
    show ?thesis by (rule bucket_strings_step [OF refl sub Cons.IH [OF run]])
  next
    case False
    show ?thesis
    proof (cases "similarity_threshold \<le> max_sim")
      case weak_case: True
      with prem False obtain i where i: "i < length rn"
        and run: "semantic_loop tfidf rn rest
           (strong, weak @ [\<lparr>skill = r, matched_with = rn ! i, similarity = Some (round2 max_sim)\<rparr>],
            missing) = Inr acc'"
        by (auto split: option.splits if_splits)
      from i have sub: "bucket_strings
           (strong, weak @ [\<lparr>skill = r, matched_with = rn ! i, similarity = Some (round2 max_sim)\<rparr>],
            missing) \<subseteq> ?B \<union> {r} \<union> set rn"
        by (auto simp: bucket_strings_def)
      show ?thesis by (rule bucket_strings_step [OF refl sub Cons.IH [OF run]])
    next
      case miss: False
      with prem False have run: "semantic_loop tfidf rn rest (strong, weak, missing @ [r]) = Inr acc'"
        by simp
      have sub: "bucket_strings (strong, weak, missing @ [r]) \<subseteq> ?B \<union> {r} \<union> set rn"
        by (auto simp: bucket_strings_def)
      show ?thesis by (rule bucket_strings_step [OF refl sub Cons.IH [OF run]])
    qed
  qed
qed


lemma lower_char_idem: "lower_char (lower_char c) = lower_char c"
  by (auto simp: lower_char_def Let_def)

lemma lower_fixed: "c \<in> set (lower s) \<Longrightarrow> lower_char c = c"
  by (auto simp: lower_def lower_char_idem)

lemma set_strip: "set (strip s) \<subseteq> set s"
  unfolding strip_def by (auto dest!: set_dropWhileD)

lemma lower_strip_lower: "lower (strip (lower s)) = strip (lower s)"
proof -
  have "\<forall>c \<in> set (strip (lower s)). lower_char c = c"
    using set_strip [of "lower s"] lower_fixed by blast
  then show ?thesis unfolding lower_def [of "strip _"] by (simp add: map_idI)
qed

lemma strip_idem: "strip (strip s) = strip s"
proof -
  define u where "u = dropWhile is_space s"
  define t where "t = rev (dropWhile is_space (rev u))"
  have t: "strip s = t" by (simp add: strip_def t_def u_def)
  have u: "u = t @ rev (takeWhile is_space (rev u))"
  proof -
    have "rev (takeWhile is_space (rev u) @ dropWhile is_space (rev u)) = rev (rev u)"
      by (simp only: takeWhile_dropWhile_id)
    then show ?thesis by (simp only: rev_append rev_rev_ident t_def)
  qed
  have front: "dropWhile is_space t = t"
  proof (cases "t = []")
    case True then show ?thesis by simp
  next
    case False
    with u have "hd u = hd t" by (metis hd_append2)
    moreover from False u have "u \<noteq> []" by auto
    then have "\<not> is_space (hd u)" unfolding u_def by (rule hd_dropWhile)
    ultimately show ?thesis using False by (simp add: dropWhile_eq_self_iff)
  qed
  have "rev t = dropWhile is_space (rev u)" by (simp add: t_def)
  then have rear: "dropWhile is_space (rev t) = rev t" by simp
  show ?thesis unfolding t by (simp add: strip_def [of t] front rear)
qed

lemma normalize_skills_normalized: "s \<in> set (normalize_skills skills) \<Longrightarrow> is_normalized s"
  by (auto simp: normalize_skills_def is_normalized_def lower_strip_lower strip_idem)

lemma tfidf_shape_no: "tfidf_shape no_tfidf"
  by (simp add: tfidf_shape_def no_tfidf_def)

lemma tfidf_shape_substring: "tfidf_shape substring_tfidf"
  by (auto simp: tfidf_shape_def substring_tfidf_def split: list.splits)

lemma length_normalize_skills: "length (normalize_skills skills) = required_count skills"
  by (simp add: normalize_skills_def required_count_def)

lemma classified_length:
  "classified (strong, weak, missing) = mset reqs \<Longrightarrow>
   length strong + length weak + length missing = length reqs"
proof -
  assume "classified (strong, weak, missing) = mset reqs"
  then have "size (mset strong + mset (map skill weak) + mset missing) = size (mset reqs)"
    by (simp add: classified_def)
  then show ?thesis by simp
qed

lemma analyze_nonempty:
  assumes "tfidf_shape tfidf" and "resume_skills \<noteq> []"
  shows "\<exists>strong weak missing.
           analyze sklearn_available tfidf resume_skills required_skills
             = Inr (finish (length (normalize_skills required_skills)) (strong, weak, missing))
           \<and> classified (strong, weak, missing) = mset (normalize_skills required_skills)
           \<and> bucket_strings (strong, weak, missing)
               \<subseteq> set (normalize_skills required_skills) \<union> set (normalize_skills resume_skills)"
proof (cases "sklearn_available \<and> normalize_skills resume_skills \<noteq> []
               \<and> normalize_skills required_skills \<noteq> []")
  case True
  then obtain acc where run: "semantic_loop tfidf (normalize_skills resume_skills)
      (normalize_skills required_skills) ([], [], []) = Inr acc"
    using semantic_loop_total [OF assms(1)] by blast
  obtain strong weak missing where acc: "acc = (strong, weak, missing)" by (cases acc) auto
  have "classified acc = mset (normalize_skills required_skills)"
    using semantic_loop_classified [OF run] by (simp add: classified_def)
  moreover have "bucket_strings acc
      \<subseteq> set (normalize_skills required_skills) \<union> set (normalize_skills resume_skills)"
    using semantic_loop_strings [OF run] by (simp add: bucket_strings_def)
  moreover have "analyze sklearn_available tfidf resume_skills required_skills
      = Inr (finish (length (normalize_skills required_skills)) acc)"
    using True assms(2) run by (simp add: analyze_def Let_def)
  ultimately show ?thesis unfolding acc by blast
next
  case False
  define acc where "acc = fallback_loop (normalize_skills resume_skills)
      (normalize_skills required_skills) ([], [], [])"
  obtain strong weak missing where acc: "acc = (strong, weak, missing)" by (cases acc) auto
  have "classified acc = mset (normalize_skills required_skills)"
    unfolding acc_def by (simp add: fallback_loop_classified) (simp add: classified_def)
  moreover have "bucket_strings acc
      \<subseteq> set (normalize_skills required_skills) \<union> set (normalize_skills resume_skills)"
    unfolding acc_def
    using fallback_loop_strings [of "normalize_skills resume_skills"
        "normalize_skills required_skills" "[]" "[]" "[]"]
    by (simp add: bucket_strings_def)
  moreover have "analyze sklearn_available tfidf resume_skills required_skills
      = Inr (finish (length (normalize_skills required_skills)) acc)"
    using False assms(2) unfolding acc_def by (auto simp: analyze_def Let_def)
  ultimately show ?thesis unfolding acc by blast
qed

lemma finish_fields:
  "strong_matches (finish n (strong, weak, missing)) = strong"
  "weak_matches (finish n (strong, weak, missing)) = weak"
  "missing_skills (finish n (strong, weak, missing)) = missing"
  "match_percentage (finish n (strong, weak, missing)) =
     round2 (if 0 < n
             then fmul (fdiv (fadd (float_of_nat (length strong))
                                (fmul (float_of_nat (length weak)) 0.5))
                          (float_of_nat n))
                    100
             else 0)"
  by (simp_all add: finish_def)

lemma percentage_range:
  assumes "length strong + length weak + length missing = n" and "n < 2 ^ 53"
  shows "0 \<le> fmul (fdiv (fadd (float_of_nat (length strong))
                         (fmul (float_of_nat (length weak)) 0.5))
                   (float_of_nat n)) 100
       \<and> fmul (fdiv (fadd (float_of_nat (length strong))
                         (fmul (float_of_nat (length weak)) 0.5))
                   (float_of_nat n)) 100 \<le> 100"
proof -
  let ?s = "length strong" and ?w = "length weak"
  have s: "float_of_nat ?s = real ?s" and w: "float_of_nat ?w = real ?w"
    and n: "float_of_nat n = real n"
    using assms by (simp_all add: float_of_nat_def fl_of_nat)
  define h where "h = fmul (real ?w) 0.5"
  have h0: "0 \<le> h" unfolding h_def fmul_def by (rule fl_nonneg) simp
  have "fl (real ?w * 0.5) \<le> fl (real ?w)" by (rule fl_mono) simp_all
  also have "fl (real ?w) = real ?w" using assms by (simp add: fl_of_nat)
  finally have hw: "h \<le> real ?w" by (simp add: h_def fmul_def)
  define a where "a = fadd (real ?s) h"
  have a0: "0 \<le> a" unfolding a_def fadd_def using h0 by (intro fl_nonneg) simp
  have "real ?s + h \<le> real n"
  proof -
    have "real ?s + real ?w \<le> real n" using assms(1) by (simp flip: of_nat_add)
    with hw show ?thesis by linarith
  qed
  then have "fl (real ?s + h) \<le> fl (real n)" using h0 by (intro fl_mono) simp_all
  also have "fl (real n) = real n" using assms(2) by (rule fl_of_nat)
  finally have an: "a \<le> real n" by (simp add: a_def fadd_def)
  define q where "q = fdiv a (real n)"
  have q0: "0 \<le> q" unfolding q_def fdiv_def using a0 by (intro fl_nonneg) simp
  have "a / real n \<le> 1" using an a0 by (cases "n = 0") (simp_all add: divide_le_eq)
  then have "fl (a / real n) \<le> fl 1" using a0 by (intro fl_mono) simp_all
  then have q1: "q \<le> 1" by (simp add: q_def fdiv_def fl_one)
  have p0: "0 \<le> fmul q 100" unfolding fmul_def using q0 by (intro fl_nonneg) simp
  have "fl (q * 100) \<le> fl 100" using q0 q1 by (intro fl_mono) simp_all
  then have p1: "fmul q 100 \<le> 100" by (simp add: fmul_def fl_numeral)
  from p0 p1 show ?thesis by (simp only: s w n q_def a_def h_def)
qed

lemma analyze_fallback:
  assumes "resume_skills \<noteq> []"
  shows "analyze False tfidf resume_skills required_skills
     = Inr (finish (length (normalize_skills required_skills))
             (fallback_loop (normalize_skills resume_skills) (normalize_skills required_skills)
                ([], [], [])))"
  using assms by (simp add: analyze_def Let_def)

lemma analyze_no_resume:
  "analyze sklearn_available tfidf [] required_skills =
     Inr \<lparr>match_percentage = 0, strong_matches = [], weak_matches = [],
          missing_skills = required_skills\<rparr>"
  by (simp add: analyze_def)

lemmas text_eval =
  strip_def lower_def lower_char_def is_space_def is_word_def char_of_def bit_Suc_0_iff
  sublist_code newline_def

lemma normalize_resume_example:
  "normalize_skills [''React.js'', ''SQL''] = [''react.js'', ''sql'']"
  by (simp add: normalize_skills_def text_eval)

lemma normalize_required_example:
  "normalize_skills [''React'', ''sql '', ''  '', ''Docker''] = [''react'', ''sql'', ''docker'']"
  by (simp add: normalize_skills_def text_eval)

text \<open>The doubles met when the percentage is computed on the examples below.\<close>

lemma fl_pct_1: "fl 1 = 1"
  using fl_eval [of "0" "1"]
  by (simp add: round_half_even_def power_int_minus)

lemma fl_pct_2: "fl 0 = 0"
  by (rule fl_zero)

lemma fl_pct_3: "fl 3 = 3"
  using fl_eval [of "1" "3"]
  by (simp add: round_half_even_def power_int_minus)

lemma fl_pct_4: "fl (1 / 3) = 6004799503160661 / 18014398509481984"
  using fl_eval [of "- 2" "1 / 3"]
  by (simp add: round_half_even_def power_int_minus)

lemma fl_pct_5: "fl (150119987579016525 / 4503599627370496) = 2345624805922133 / 70368744177664"
  using fl_eval [of "5" "150119987579016525 / 4503599627370496"]
  by (simp add: round_half_even_def power_int_minus)

lemma fl_pct_6: "fl (1 / 2) = 1 / 2"
  using fl_eval [of "- 1" "1 / 2"]
  by (simp add: round_half_even_def power_int_minus)

lemma fl_pct_7: "fl (3 / 2) = 3 / 2"
  using fl_eval [of "0" "3 / 2"]
  by (simp add: round_half_even_def power_int_minus)

lemma fl_pct_8: "fl 50 = 50"
  using fl_eval [of "5" "50"]
  by (simp add: round_half_even_def power_int_minus)

lemma fl_pct_9: "fl 11 = 11"
  using fl_eval [of "3" "11"]
  by (simp add: round_half_even_def power_int_minus)

lemma fl_pct_10: "fl (23 / 2) = 23 / 2"
  using fl_eval [of "3" "23 / 2"]
  by (simp add: round_half_even_def power_int_minus)

lemma fl_pct_11: "fl 80 = 80"
  using fl_eval [of "6" "80"]
  by (simp add: round_half_even_def power_int_minus)

lemma fl_pct_12: "fl (23 / 160) = 2589569785738035 / 18014398509481984"
  using fl_eval [of "- 3" "23 / 160"]
  by (simp add: round_half_even_def power_int_minus)

lemma fl_pct_13: "fl (64739244643450875 / 4503599627370496) = 8092405580431359 / 562949953421312"
  using fl_eval [of "3" "64739244643450875 / 4503599627370496"]
  by (simp add: round_half_even_def power_int_minus)

lemma fl_pct_14: "fl 49 = 49"
  using fl_eval [of "5" "49"]
  by (simp add: round_half_even_def power_int_minus)

lemma fl_pct_15: "fl (49 / 2) = 49 / 2"
  using fl_eval [of "4" "49 / 2"]
  by (simp add: round_half_even_def power_int_minus)

lemma fl_pct_16: "fl (49 / 160) = 2758454771764429 / 9007199254740992"
  using fl_eval [of "- 2" "49 / 160"]
  by (simp add: round_half_even_def power_int_minus)

lemma fl_pct_17: "fl (68961369294110725 / 2251799813685248) = 8620171161763841 / 281474976710656"
  using fl_eval [of "4" "68961369294110725 / 2251799813685248"]
  by (simp add: round_half_even_def power_int_minus)

lemma fl_pct_18: "fl (9 / 10) = 8106479329266893 / 9007199254740992"
  using fl_eval [of "- 1" "9 / 10"]
  by (simp add: round_half_even_def power_int_minus)

lemma fl_pct_19: "fl (2 / 5) = 3602879701896397 / 9007199254740992"
  using fl_eval [of "- 2" "2 / 5"]
  by (simp add: round_half_even_def power_int_minus)

lemmas fl_pct = fl_pct_1 fl_pct_2 fl_pct_3 fl_pct_4 fl_pct_5 fl_pct_6 fl_pct_7 fl_pct_8 fl_pct_9 fl_pct_10 fl_pct_11 fl_pct_12 fl_pct_13 fl_pct_14 fl_pct_15 fl_pct_16 fl_pct_17 fl_pct_18 fl_pct_19

lemma fl_hundredths_1: "fl (3333 / 100) = 2345390243441541 / 70368744177664"
  using fl_eval [of "5" "3333 / 100"]
  by (simp add: round_half_even_def power_int_minus)

lemma analyze_example:
  "analyze True substring_tfidf [''React.js'', ''SQL''] [''React'', ''sql '', ''  '', ''Docker''] =
     Inr \<lparr>match_percentage = 50, strong_matches = [''sql''],
          weak_matches =
            [\<lparr>skill = ''react'', matched_with = ''react.js'', similarity = Some (1 / 2)\<rparr>],
          missing_skills = [''docker'']\<rparr>"
  by (simp add: analyze_def normalize_resume_example normalize_required_example
      calculate_similarities_def substring_tfidf_def similarity_threshold_def sublist_code
      finish_def round2_def round_half_even_def Let_def float_ops fl_pct)

text \<open>
  Two inputs on which rounding the exact quotient would give another hundredth:
  11 strong and 1 weak match of 80 give 14.37 (the quotient 14.375 is computed as
  14.374999999999998), and 49 weak matches of 80 give 30.63 (30.625 is computed as
  30.625000000000004).
\<close>

lemma percentage_11_1_80:
  "round2 (fmul (fdiv (fadd (float_of_nat 11) (fmul (float_of_nat 1) 0.5)) (float_of_nat 80)) 100)
     = fl (1437 / 100)"
  by (simp add: round2_def round_half_even_def float_ops fl_pct)

lemma percentage_0_49_80:
  "round2 (fmul (fdiv (fadd (float_of_nat 0) (fmul (float_of_nat 49) 0.5)) (float_of_nat 80)) 100)
     = fl (3063 / 100)"
  by (simp add: round2_def round_half_even_def float_ops fl_pct)

section \<open>Claims about skill-gap analysis\<close>

text \<open>
  C2 (as written): the returned \<open>match_percentage\<close> equals
  \<open>100 \<times> (|strong| + 0.5 \<times> |weak|) / required_count\<close>. The code computes the quotient in
  floating point and rounds it to two decimals before returning it: with one strong match
  out of three required skills it returns the double 33.33, which is not 100/3.
\<close>

theorem match_percentage_unrounded_counterexample:
  "analyze False no_tfidf [''a''] [''a'', ''b'', ''c''] =
     Inr \<lparr>match_percentage = fl (3333 / 100), strong_matches = [''a''], weak_matches = [],
          missing_skills = [''b'', ''c'']\<rparr>
   \<and> required_count [''a'', ''b'', ''c''] = 3
   \<and> fl (3333 / 100) \<noteq> 100 * (1 + 0.5 * 0) / 3"
proof -
  have run: "analyze False no_tfidf [''a''] [''a'', ''b'', ''c''] =
     Inr \<lparr>match_percentage = fl (3333 / 100), strong_matches = [''a''], weak_matches = [],
          missing_skills = [''b'', ''c'']\<rparr>"
    by (simp add: analyze_def normalize_skills_def text_eval finish_def round2_def
        round_half_even_def Let_def float_ops fl_pct)
  have count: "required_count [''a'', ''b'', ''c''] = 3"
    by (simp add: required_count_def text_eval)
  have differ: "fl (3333 / 100) \<noteq> 100 * (1 + 0.5 * 0) / 3"
    by (simp add: fl_hundredths_1)
  from run count differ show ?thesis by (intro conjI)
qed

text \<open>
  C2 (amended): for all skill lists, in both modes, \<open>analyze\<close> returns a result whose
  \<open>match_percentage\<close> is \<open>(|strong| + |weak| \<times> 0.5) / required_count \<times> 100\<close>, evaluated in
  double precision in that order and then rounded to two decimals by \<open>round\<close>, when
  \<open>required_count > 0\<close>, and 0 otherwise; \<open>required_count\<close> is the number of required
  skills that are not blank. It lies in \<open>[0, 100]\<close>; this is shown for required lists
  shorter than \<open>2\<^sup>5\<^sup>3\<close>, whose lengths are converted to floats exactly.
\<close>

theorem match_percentage_rounded:
  assumes "tfidf_shape tfidf"
  shows "\<exists>r. analyze sklearn_available tfidf resume_skills required_skills = Inr r
     \<and> match_percentage r =
         (if 0 < required_count required_skills
          then round2 (fmul (fdiv (fadd (float_of_nat (length (strong_matches r)))
                                     (fmul (float_of_nat (length (weak_matches r))) 0.5))
                               (float_of_nat (required_count required_skills)))
                         100)
          else 0)
     \<and> (length required_skills < 2 ^ 53 \<longrightarrow>
          0 \<le> match_percentage r \<and> match_percentage r \<le> 100)"
proof (cases "resume_skills = []")
  case True
  then show ?thesis by (simp add: analyze_no_resume round2_zero float_ops fl_zero)
next
  case False
  from analyze_nonempty [OF assms False, of sklearn_available required_skills]
  obtain strong weak missing where
    run: "analyze sklearn_available tfidf resume_skills required_skills
             = Inr (finish (required_count required_skills) (strong, weak, missing))"
    and cls: "classified (strong, weak, missing) = mset (normalize_skills required_skills)"
    unfolding length_normalize_skills by blast
  let ?n = "required_count required_skills"
  let ?e = "fmul (fdiv (fadd (float_of_nat (length strong)) (fmul (float_of_nat (length weak)) 0.5))
                   (float_of_nat ?n)) 100"
  have len: "length strong + length weak + length missing = ?n"
    using classified_length [OF cls] by (simp add: length_normalize_skills)
  have range: "0 \<le> round2 ?e \<and> round2 ?e \<le> 100" if "length required_skills < 2 ^ 53"
  proof -
    have "?n \<le> length required_skills" by (simp add: required_count_def)
    with that have small: "?n < 2 ^ 53" by simp
    have "0 \<le> ?e \<and> ?e \<le> 100" by (rule percentage_range [OF len small])
    then show ?thesis using round2_range by blast
  qed
  show ?thesis
    unfolding run using range
    by (cases "0 < ?n") (simp_all add: finish_fields round2_zero)
qed

theorem match_percentage_rounded_witness:
  "tfidf_shape substring_tfidf
   \<and> length [''React'', ''sql '', ''  '', ''Docker''] < 2 ^ 53
   \<and> (\<exists>r. analyze True substring_tfidf [''React.js'', ''SQL'']
             [''React'', ''sql '', ''  '', ''Docker''] = Inr r
        \<and> match_percentage r = 50 \<and> 0 \<le> match_percentage r \<and> match_percentage r \<le> 100
        \<and> required_count [''React'', ''sql '', ''  '', ''Docker''] = 3
        \<and> length (strong_matches r) = 1 \<and> length (weak_matches r) = 1
        \<and> round2 (fmul (fdiv (fadd (float_of_nat 1) (fmul (float_of_nat 1) 0.5))
                           (float_of_nat 3)) 100) = 50)"
proof -
  have count: "required_count [''React'', ''sql '', ''  '', ''Docker''] = 3"
    by (simp add: required_count_def text_eval)
  from match_percentage_rounded [OF tfidf_shape_substring, of True
      "[''React.js'', ''SQL'']" "[''React'', ''sql '', ''  '', ''Docker'']"]
  show ?thesis
    by (simp add: tfidf_shape_substring analyze_example count)
qed

text \<open>
  C4: in fallback mode (scikit-learn not available) with a non-empty resume list, a
  normalized required skill that contains, or is contained in, some normalized resume
  skill is put in \<open>strong_matches\<close> or \<open>weak_matches\<close> and never in \<open>missing_skills\<close>.
\<close>

theorem fallback_substring_never_missing:
  assumes "resume_skills \<noteq> []"
    and "req_skill \<in> set (normalize_skills required_skills)"
    and "res_skill \<in> set (normalize_skills resume_skills)"
    and "sublist req_skill res_skill \<or> sublist res_skill req_skill"
  shows "\<exists>r. analyze False tfidf resume_skills required_skills = Inr r
     \<and> (req_skill \<in> set (strong_matches r) \<or> req_skill \<in> skill ` set (weak_matches r))
     \<and> req_skill \<notin> set (missing_skills r)"
proof -
  let ?rn = "normalize_skills resume_skills"
  let ?qn = "normalize_skills required_skills"
  obtain strong weak missing where
    acc: "fallback_loop ?rn ?qn ([], [], []) = (strong, weak, missing)"
    by (cases "fallback_loop ?rn ?qn ([], [], [])") auto
  have "set missing = {r \<in> set ?qn. r \<notin> set ?rn \<and> (\<forall>x \<in> set ?rn. \<not> sublist r x \<and> \<not> sublist x r)}"
    using fallback_loop_missing [of ?rn ?qn "[]" "[]" "[]"] by (simp add: acc)
  with assms(3,4) have not_missing: "req_skill \<notin> set missing" by blast
  have "classified (strong, weak, missing) = mset ?qn"
    using fallback_loop_classified [of ?rn ?qn "[]" "[]" "[]"] by (simp add: acc classified_def)
  then have "set_mset (mset strong + mset (map skill weak) + mset missing) = set ?qn"
    by (simp add: classified_def)
  with assms(2) have "req_skill \<in> set strong \<union> skill ` set weak \<union> set missing"
    by auto
  with not_missing have "req_skill \<in> set strong \<or> req_skill \<in> skill ` set weak" by blast
  with not_missing show ?thesis
    by (simp add: analyze_fallback [OF assms(1)] acc finish_fields)
qed

theorem fallback_substring_never_missing_witness:
  "[''React.js''] \<noteq> []
   \<and> ''react'' \<in> set (normalize_skills [''React''])
   \<and> ''react.js'' \<in> set (normalize_skills [''React.js''])
   \<and> (sublist ''react'' ''react.js'' \<or> sublist ''react.js'' ''react'')
   \<and> (\<exists>r. analyze False no_tfidf [''React.js''] [''React''] = Inr r
        \<and> (''react'' \<in> set (strong_matches r) \<or> ''react'' \<in> skill ` set (weak_matches r))
        \<and> ''react'' \<notin> set (missing_skills r))"
proof -
  have a: "[''React.js''] \<noteq> []" by simp
  have b: "''react'' \<in> set (normalize_skills [''React''])"
    by (simp add: normalize_skills_def text_eval)
  have c: "''react.js'' \<in> set (normalize_skills [''React.js''])"
    by (simp add: normalize_skills_def text_eval)
  have d: "sublist ''react'' ''react.js'' \<or> sublist ''react.js'' ''react''"
    by (simp add: sublist_code)
  from fallback_substring_never_missing [OF a b c d, of no_tfidf] a b c d
  show ?thesis by blast
qed

text \<open>
  C5 (as written): every skill string of the result is lowercased and trimmed, also when
  the resume list is empty. With an empty resume list the required skills come back in
  \<open>missing_skills\<close> exactly as they were passed.
\<close>

theorem empty_resume_not_normalized_counterexample:
  "analyze True substring_tfidf [] ['' SQL''] =
     Inr \<lparr>match_percentage = 0, strong_matches = [], weak_matches = [],
          missing_skills = ['' SQL'']\<rparr>
   \<and> \<not> is_normalized '' SQL''"
  by (simp add: analyze_def is_normalized_def text_eval)

text \<open>
  C5 (amended): when the resume list is not empty, every skill string of the result (in
  \<open>strong_matches\<close>, in \<open>missing_skills\<close>, and the \<open>skill\<close> and \<open>matched_with\<close> entries of
  \<open>weak_matches\<close>) is lowercased and trimmed; when it is empty, \<open>missing_skills\<close> is the
  required list as passed and the two match lists are empty.
\<close>

theorem result_skills_normalized:
  assumes "tfidf_shape tfidf"
  shows "\<exists>r. analyze sklearn_available tfidf resume_skills required_skills = Inr r
     \<and> (if resume_skills = []
        then strong_matches r = [] \<and> weak_matches r = [] \<and> missing_skills r = required_skills
        else \<forall>s \<in> result_strings r. is_normalized s)"
proof (cases "resume_skills = []")
  case True
  then show ?thesis by (simp add: analyze_no_resume)
next
  case False
  from analyze_nonempty [OF assms False, of sklearn_available required_skills]
  obtain strong weak missing where
    run: "analyze sklearn_available tfidf resume_skills required_skills
             = Inr (finish (length (normalize_skills required_skills)) (strong, weak, missing))"
    and sub: "bucket_strings (strong, weak, missing)
               \<subseteq> set (normalize_skills required_skills) \<union> set (normalize_skills resume_skills)"
    by blast
  have "result_strings (finish n (strong, weak, missing)) = bucket_strings (strong, weak, missing)"
    for n by (simp add: result_strings_def finish_fields bucket_strings_def)
  with sub have "\<forall>s \<in> result_strings (finish (length (normalize_skills required_skills))
      (strong, weak, missing)). is_normalized s"
    using normalize_skills_normalized by blast
  with run False show ?thesis by simp
qed

theorem result_skills_normalized_witness:
  "tfidf_shape substring_tfidf
   \<and> (\<exists>r. analyze True substring_tfidf [''React.js'', ''SQL'']
             [''React'', ''sql '', ''  '', ''Docker''] = Inr r
        \<and> result_strings r = {''sql'', ''react'', ''react.js'', ''docker''}
        \<and> (\<forall>s \<in> result_strings r. is_normalized s))"
  using result_skills_normalized [OF tfidf_shape_substring, of True "[''React.js'', ''SQL'']"
      "[''React'', ''sql '', ''  '', ''Docker'']"]
  by (auto simp: tfidf_shape_substring analyze_example result_strings_def)

text \<open>
  C6: with an empty resume list \<open>analyze\<close> returns all required skills, as passed, in
  \<open>missing_skills\<close>, no strong or weak match and \<open>match_percentage\<close> 0, whatever the
  similarity engine is (it is not consulted).
\<close>

theorem analyze_empty_resume:
  "analyze sklearn_available tfidf [] required_skills =
     Inr \<lparr>match_percentage = 0, strong_matches = [], weak_matches = [],
          missing_skills = required_skills\<rparr>"
  by (simp add: analyze_def)

theorem analyze_empty_resume_witness:
  "analyze True no_tfidf [] [''Python'', ''SQL''] =
     Inr \<lparr>match_percentage = 0, strong_matches = [], weak_matches = [],
          missing_skills = [''Python'', ''SQL'']\<rparr>
   \<and> analyze True substring_tfidf [] [''Python'', ''SQL''] =
     Inr \<lparr>match_percentage = 0, strong_matches = [], weak_matches = [],
          missing_skills = [''Python'', ''SQL'']\<rparr>"
  using analyze_empty_resume [of True no_tfidf "[''Python'', ''SQL'']"]
    analyze_empty_resume [of True substring_tfidf "[''Python'', ''SQL'']"]
  by simp

text \<open>
  C10: with a non-empty resume list, in either mode, every normalized required skill
  lands in exactly one of \<open>strong_matches\<close>, \<open>weak_matches\<close> and \<open>missing_skills\<close>: as
  multisets the three together are the normalized required list, and their lengths add
  up to the number of required skills whose trimmed form is not empty.
\<close>

theorem classification_partition:
  assumes "tfidf_shape tfidf" and "resume_skills \<noteq> []"
  shows "\<exists>r. analyze sklearn_available tfidf resume_skills required_skills = Inr r
     \<and> mset (strong_matches r) + mset (map skill (weak_matches r)) + mset (missing_skills r)
         = mset (normalize_skills required_skills)
     \<and> length (strong_matches r) + length (weak_matches r) + length (missing_skills r)
         = required_count required_skills"
proof -
  from analyze_nonempty [OF assms, of sklearn_available required_skills]
  obtain strong weak missing where
    run: "analyze sklearn_available tfidf resume_skills required_skills
             = Inr (finish (length (normalize_skills required_skills)) (strong, weak, missing))"
    and cls: "classified (strong, weak, missing) = mset (normalize_skills required_skills)"
    by blast
  have len: "length strong + length weak + length missing = required_count required_skills"
    using classified_length [OF cls] by (simp add: length_normalize_skills)
  from cls have "mset strong + mset (map skill weak) + mset missing
      = mset (normalize_skills required_skills)"
    by (simp add: classified_def)
  with run len show ?thesis by (simp add: finish_fields)
qed

theorem classification_partition_witness:
  "tfidf_shape substring_tfidf \<and> [''React.js'', ''SQL''] \<noteq> []
   \<and> (\<exists>r. analyze True substring_tfidf [''React.js'', ''SQL'']
             [''React'', ''sql '', ''  '', ''Docker''] = Inr r
        \<and> length (strong_matches r) + length (weak_matches r) + length (missing_skills r) = 3
        \<and> required_count [''React'', ''sql '', ''  '', ''Docker''] = 3)"
proof -
  have ne: "[''React.js'', ''SQL''] \<noteq> []" by simp
  from classification_partition [OF tfidf_shape_substring ne, of True
      "[''React'', ''sql '', ''  '', ''Docker'']"]
  show ?thesis
    by (simp add: tfidf_shape_substring analyze_example)
qed

section \<open>Facts about the scorer\<close>

text \<open>The doubles met when the scorer is run on the examples below.\<close>

lemma fl_score_1: "fl (2 / 5) = 3602879701896397 / 9007199254740992"
  using fl_eval [of "- 2" "2 / 5"]
  by (simp add: round_half_even_def power_int_minus)

lemma fl_score_2: "fl (3 / 10) = 5404319552844595 / 18014398509481984"
  using fl_eval [of "- 2" "3 / 10"]
  by (simp add: round_half_even_def power_int_minus)

lemma fl_score_3: "fl (3 / 20) = 5404319552844595 / 36028797018963968"
  using fl_eval [of "- 3" "3 / 20"]
  by (simp add: round_half_even_def power_int_minus)

lemma fl_score_4: "fl (1 / 10) = 3602879701896397 / 36028797018963968"
  using fl_eval [of "- 4" "1 / 10"]
  by (simp add: round_half_even_def power_int_minus)

lemma fl_score_5: "fl (1 / 20) = 3602879701896397 / 72057594037927936"
  using fl_eval [of "- 5" "1 / 20"]
  by (simp add: round_half_even_def power_int_minus)

lemma fl_score_6: "fl (3602879701896397 / 9007199254740992) = 3602879701896397 / 9007199254740992"
  using fl_eval [of "- 2" "3602879701896397 / 9007199254740992"]
  by (simp add: round_half_even_def power_int_minus)

lemma fl_score_7: "fl (12610078956637389 / 18014398509481984) = 3152519739159347 / 4503599627370496"
  using fl_eval [of "- 1" "12610078956637389 / 18014398509481984"]
  by (simp add: round_half_even_def power_int_minus)

lemma fl_score_8: "fl (30624477466119371 / 36028797018963968) = 7656119366529843 / 9007199254740992"
  using fl_eval [of "- 1" "30624477466119371 / 36028797018963968"]
  by (simp add: round_half_even_def power_int_minus)

lemma fl_score_9: "fl (34227357168015769 / 36028797018963968) = 4278419646001971 / 4503599627370496"
  using fl_eval [of "- 1" "34227357168015769 / 36028797018963968"]
  by (simp add: round_half_even_def power_int_minus)

lemma fl_score_10: "fl (72057594037927933 / 72057594037927936) = 1"
  using fl_eval [of "- 1" "72057594037927933 / 72057594037927936"]
  by (simp add: round_half_even_def power_int_minus)

lemma fl_score_11: "fl (90071992547409925 / 2251799813685248) = 40"
  using fl_eval [of "5" "90071992547409925 / 2251799813685248"]
  by (simp add: round_half_even_def power_int_minus)

lemma fl_score_12: "fl (135107988821114875 / 4503599627370496) = 30"
  using fl_eval [of "4" "135107988821114875 / 4503599627370496"]
  by (simp add: round_half_even_def power_int_minus)

lemma fl_score_13: "fl (135107988821114875 / 9007199254740992) = 15"
  using fl_eval [of "3" "135107988821114875 / 9007199254740992"]
  by (simp add: round_half_even_def power_int_minus)

lemma fl_score_14: "fl (90071992547409925 / 9007199254740992) = 10"
  using fl_eval [of "3" "90071992547409925 / 9007199254740992"]
  by (simp add: round_half_even_def power_int_minus)

lemma fl_score_15: "fl (90071992547409925 / 18014398509481984) = 5"
  using fl_eval [of "2" "90071992547409925 / 18014398509481984"]
  by (simp add: round_half_even_def power_int_minus)

lemma fl_score_16: "fl 70 = 70"
  using fl_eval [of "6" "70"]
  by (simp add: round_half_even_def power_int_minus)

lemma fl_score_17: "fl 85 = 85"
  using fl_eval [of "6" "85"]
  by (simp add: round_half_even_def power_int_minus)

lemma fl_score_18: "fl 95 = 95"
  using fl_eval [of "6" "95"]
  by (simp add: round_half_even_def power_int_minus)

lemma fl_score_19: "fl 100 = 100"
  using fl_eval [of "6" "100"]
  by (simp add: round_half_even_def power_int_minus)

lemma fl_score_20: "fl 1 = 1"
  using fl_eval [of "0" "1"]
  by (simp add: round_half_even_def power_int_minus)

lemma fl_score_21: "fl 3 = 3"
  using fl_eval [of "1" "3"]
  by (simp add: round_half_even_def power_int_minus)

lemma fl_score_22: "fl 2 = 2"
  using fl_eval [of "1" "2"]
  by (simp add: round_half_even_def power_int_minus)

lemma fl_score_23: "fl (1 / 2) = 1 / 2"
  using fl_eval [of "- 1" "1 / 2"]
  by (simp add: round_half_even_def power_int_minus)

lemma fl_score_24: "fl 50 = 50"
  using fl_eval [of "5" "50"]
  by (simp add: round_half_even_def power_int_minus)

lemma fl_score_25: "fl (1 / 3) = 6004799503160661 / 18014398509481984"
  using fl_eval [of "- 2" "1 / 3"]
  by (simp add: round_half_even_def power_int_minus)

lemma fl_score_26: "fl (150119987579016525 / 4503599627370496) = 2345624805922133 / 70368744177664"
  using fl_eval [of "5" "150119987579016525 / 4503599627370496"]
  by (simp add: round_half_even_def power_int_minus)

lemma fl_score_27: "fl (90071992547409925 / 4503599627370496) = 20"
  using fl_eval [of "4" "90071992547409925 / 4503599627370496"]
  by (simp add: round_half_even_def power_int_minus)

lemma fl_score_28: "fl 0 = 0"
  by (rule fl_zero)

lemma fl_score_29: "fl 20 = 20"
  using fl_eval [of "4" "20"]
  by (simp add: round_half_even_def power_int_minus)

lemma fl_score_30: "fl 30 = 30"
  using fl_eval [of "4" "30"]
  by (simp add: round_half_even_def power_int_minus)

lemma fl_score_31: "fl (8451004001521528611476415254801 / 5070602400912917605986812821504) = 3752999689475413 / 2251799813685248"
  using fl_eval [of "0" "8451004001521528611476415254801 / 5070602400912917605986812821504"]
  by (simp add: round_half_even_def power_int_minus)

lemma fl_score_32: "fl (71306994100032853 / 2251799813685248) = 8913374262504107 / 281474976710656"
  using fl_eval [of "4" "71306994100032853 / 2251799813685248"]
  by (simp add: round_half_even_def power_int_minus)

lemma fl_score_33: "fl (1 / 6) = 6004799503160661 / 36028797018963968"
  using fl_eval [of "- 3" "1 / 6"]
  by (simp add: round_half_even_def power_int_minus)

lemma fl_score_34: "fl (150119987579016525 / 9007199254740992) = 2345624805922133 / 140737488355328"
  using fl_eval [of "4" "150119987579016525 / 9007199254740992"]
  by (simp add: round_half_even_def power_int_minus)

lemma fl_score_35: "fl 96 = 96"
  using fl_eval [of "6" "96"]
  by (simp add: round_half_even_def power_int_minus)

lemma fl_score_36: "fl 48 = 48"
  using fl_eval [of "5" "48"]
  by (simp add: round_half_even_def power_int_minus)

lemma fl_score_37: "fl (1 / 16) = 1 / 16"
  using fl_eval [of "- 4" "1 / 16"]
  by (simp add: round_half_even_def power_int_minus)

lemma fl_score_38: "fl (25 / 4) = 25 / 4"
  using fl_eval [of "2" "25 / 4"]
  by (simp add: round_half_even_def power_int_minus)

lemma fl_score_39: "fl (2 / 3) = 6004799503160661 / 9007199254740992"
  using fl_eval [of "- 1" "2 / 3"]
  by (simp add: round_half_even_def power_int_minus)

lemma fl_score_40: "fl (150119987579016525 / 2251799813685248) = 2345624805922133 / 35184372088832"
  using fl_eval [of "6" "150119987579016525 / 2251799813685248"]
  by (simp add: round_half_even_def power_int_minus)

lemma fl_score_41: "fl (8451004001521528611476415254801 / 1267650600228229401496703205376) = 3752999689475413 / 562949953421312"
  using fl_eval [of "2" "8451004001521528611476415254801 / 1267650600228229401496703205376"]
  by (simp add: round_half_even_def power_int_minus)

lemma fl_score_42: "fl (135107988821114875 / 72057594037927936) = 15 / 8"
  using fl_eval [of "0" "135107988821114875 / 72057594037927936"]
  by (simp add: round_half_even_def power_int_minus)

lemma fl_score_43: "fl (4808530852140373 / 562949953421312) = 4808530852140373 / 562949953421312"
  using fl_eval [of "3" "4808530852140373 / 562949953421312"]
  by (simp add: round_half_even_def power_int_minus)

lemma fl_score_44: "fl (13252780153460053 / 562949953421312) = 3313195038365013 / 140737488355328"
  using fl_eval [of "4" "13252780153460053 / 562949953421312"]
  by (simp add: round_half_even_def power_int_minus)

lemma fl_score_45: "fl (3313195038365013 / 140737488355328) = 3313195038365013 / 140737488355328"
  using fl_eval [of "4" "3313195038365013 / 140737488355328"]
  by (simp add: round_half_even_def power_int_minus)

lemma fl_score_46: "fl (8451004001521528611476415254801 / 2535301200456458802993406410752) = 3752999689475413 / 1125899906842624"
  using fl_eval [of "1" "8451004001521528611476415254801 / 2535301200456458802993406410752"]
  by (simp add: round_half_even_def power_int_minus)

lemma fl_score_47: "fl (30258559996395517 / 1125899906842624) = 7564639999098879 / 281474976710656"
  using fl_eval [of "4" "30258559996395517 / 1125899906842624"]
  by (simp add: round_half_even_def power_int_minus)

lemmas fl_score = fl_score_1 fl_score_2 fl_score_3 fl_score_4 fl_score_5 fl_score_6 fl_score_7 fl_score_8 fl_score_9 fl_score_10 fl_score_11 fl_score_12 fl_score_13 fl_score_14 fl_score_15 fl_score_16 fl_score_17 fl_score_18 fl_score_19 fl_score_20 fl_score_21 fl_score_22 fl_score_23 fl_score_24 fl_score_25 fl_score_26 fl_score_27 fl_score_28 fl_score_29 fl_score_30 fl_score_31 fl_score_32 fl_score_33 fl_score_34 fl_score_35 fl_score_36 fl_score_37 fl_score_38 fl_score_39 fl_score_40 fl_score_41 fl_score_42 fl_score_43 fl_score_44 fl_score_45 fl_score_46 fl_score_47

lemma weight_values:
  "weight ''keywords'' = fl 0.40" "weight ''experience'' = fl 0.30"
  "weight ''projects'' = fl 0.15" "weight ''certifications'' = fl 0.10"
  "weight ''formatting'' = fl 0.05"
  by (simp_all add: weight_def weights_def weight_literals_def)

lemma fmul_range:
  assumes "0 \<le> a" and "a \<le> b" and "0 \<le> w"
  shows "0 \<le> fmul a w \<and> fmul a w \<le> fmul b w"
proof -
  have "0 \<le> a * w" using assms by simp
  moreover have "a * w \<le> b * w" using assms by (simp add: mult_right_mono)
  ultimately show ?thesis unfolding fmul_def using fl_nonneg fl_mono by blast
qed

lemma fadd_range:
  assumes "0 \<le> a \<and> a \<le> b" and "0 \<le> c \<and> c \<le> d"
  shows "0 \<le> fadd a c \<and> fadd a c \<le> fadd b d"
proof -
  have "0 \<le> a + c" using assms by simp
  moreover have "a + c \<le> b + d" using assms by simp
  ultimately show ?thesis unfolding fadd_def using fl_nonneg fl_mono by blast
qed

lemma percent_range:
  assumes "0 \<le> q" and "q \<le> 1"
  shows "0 \<le> fmul q 100 \<and> fmul q 100 \<le> 100"
proof -
  have "0 \<le> fmul q 100 \<and> fmul q 100 \<le> fmul 1 100"
    using assms by (intro fmul_range) simp_all
  moreover have "fmul 1 100 = 100" by (simp add: fmul_def fl_numeral)
  ultimately show ?thesis by simp
qed

lemma keywords_score_range:
  "0 \<le> keywords_score (score_keywords set_to_list stop_words rd jd)
   \<and> keywords_score (score_keywords set_to_list stop_words rd jd) \<le> 100"
proof -
  have "0 \<le> fmul (int_div m n) 100" for m n
    unfolding fmul_def int_div_def by (intro fl_nonneg mult_nonneg_nonneg) simp_all
  moreover have "0 \<le> fmul 0 100" by (simp add: fmul_def fl_zero)
  ultimately show ?thesis by (simp add: score_keywords_def Let_def)
qed

lemma experience_score_range:
  "0 \<le> experience_score (score_experience set_to_list stop_words exp_text jd)
   \<and> experience_score (score_experience set_to_list stop_words exp_text jd) \<le> 100"
proof -
  have "0 \<le> fmul (fdiv (float_of_nat m) d) 100" if "0 \<le> d" for m d
    unfolding fmul_def fdiv_def float_of_nat_def using that
    by (intro fl_nonneg mult_nonneg_nonneg divide_nonneg_nonneg) simp_all
  moreover have "0 \<le> fmul (float_of_nat n) 0.5" for n
    unfolding fmul_def float_of_nat_def by (intro fl_nonneg mult_nonneg_nonneg) simp_all
  ultimately show ?thesis by (simp add: score_experience_def Let_def)
qed

lemma projects_score_range:
  "0 \<le> projects_score (score_projects project_text)
   \<and> projects_score (score_projects project_text) \<le> 100"
  by (simp add: score_projects_def Let_def)

lemma certifications_score_range:
  "0 \<le> score_certifications cert_text \<and> score_certifications cert_text \<le> 100"
  by (simp add: score_certifications_def)

lemma share_range:
  assumes "k \<le> n" and "0 < n"
  shows "0 \<le> fmul (int_div k n) 100 \<and> fmul (int_div k n) 100 \<le> 100"
proof -
  have "real k / real n \<le> 1" using assms by simp
  then have "fl (real k / real n) \<le> fl 1" by (intro fl_mono) simp_all
  then have "int_div k n \<le> 1" by (simp add: int_div_def fl_one)
  moreover have "0 \<le> int_div k n" unfolding int_div_def by (intro fl_nonneg) simp
  ultimately show ?thesis by (intro percent_range)
qed

lemma formatting_score_range:
  "0 \<le> formatting_score (score_formatting secs)
   \<and> formatting_score (score_formatting secs) \<le> 100"
proof -
  define required where "required = [''education'', ''experience'', ''skills'']"
  define found where "found = filter (\<lambda>s. strip (get_section secs s) \<noteq> []) required"
  have score: "formatting_score (score_formatting secs)
      = fmul (int_div (length found) (length required)) 100"
    by (simp only: score_formatting_def Let_def formatting_result.select_convs found_def
        required_def)
  have "length found \<le> length required" by (simp add: found_def)
  moreover have "0 < length required" by (simp add: required_def)
  ultimately show ?thesis unfolding score by (rule share_range)
qed

lemma weighted_range:
  assumes "0 \<le> a \<and> a \<le> 100" "0 \<le> b \<and> b \<le> 100" "0 \<le> c \<and> c \<le> 100"
    "0 \<le> d \<and> d \<le> 100" "0 \<le> e \<and> e \<le> 100"
  shows "0 \<le> fadd (fadd (fadd (fadd (fmul a (fl 0.40)) (fmul b (fl 0.30))) (fmul c (fl 0.15)))
                    (fmul d (fl 0.10))) (fmul e (fl 0.05))
       \<and> fadd (fadd (fadd (fadd (fmul a (fl 0.40)) (fmul b (fl 0.30))) (fmul c (fl 0.15)))
                    (fmul d (fl 0.10))) (fmul e (fl 0.05)) \<le> 100"
proof -
  have w: "0 \<le> fl 0.40" "0 \<le> fl 0.30" "0 \<le> fl 0.15" "0 \<le> fl 0.10" "0 \<le> fl (0.05 :: real)"
    by (simp_all add: fl_nonneg)
  have pa: "0 \<le> fmul a (fl 0.40) \<and> fmul a (fl 0.40) \<le> 40"
    using fmul_range [of a 100 "fl 0.40"] assms(1) w(1) by (simp add: fmul_def fl_score)
  have pb: "0 \<le> fmul b (fl 0.30) \<and> fmul b (fl 0.30) \<le> 30"
    using fmul_range [of b 100 "fl 0.30"] assms(2) w(2) by (simp add: fmul_def fl_score)
  have pc: "0 \<le> fmul c (fl 0.15) \<and> fmul c (fl 0.15) \<le> 15"
    using fmul_range [of c 100 "fl 0.15"] assms(3) w(3) by (simp add: fmul_def fl_score)
  have pd: "0 \<le> fmul d (fl 0.10) \<and> fmul d (fl 0.10) \<le> 10"
    using fmul_range [of d 100 "fl 0.10"] assms(4) w(4) by (simp add: fmul_def fl_score)
  have pe: "0 \<le> fmul e (fl 0.05) \<and> fmul e (fl 0.05) \<le> 5"
    using fmul_range [of e 100 "fl 0.05"] assms(5) w(5) by (simp add: fmul_def fl_score)
  have s1: "0 \<le> fadd (fmul a (fl 0.40)) (fmul b (fl 0.30))
      \<and> fadd (fmul a (fl 0.40)) (fmul b (fl 0.30)) \<le> 70"
    using fadd_range [OF pa pb] by (simp add: fadd_def fl_score)
  have s2: "0 \<le> fadd (fadd (fmul a (fl 0.40)) (fmul b (fl 0.30))) (fmul c (fl 0.15))
      \<and> fadd (fadd (fmul a (fl 0.40)) (fmul b (fl 0.30))) (fmul c (fl 0.15)) \<le> 85"
    using fadd_range [OF s1 pc] by (simp add: fadd_def fl_score)
  have s3: "0 \<le> fadd (fadd (fadd (fmul a (fl 0.40)) (fmul b (fl 0.30))) (fmul c (fl 0.15)))
                   (fmul d (fl 0.10))
      \<and> fadd (fadd (fadd (fmul a (fl 0.40)) (fmul b (fl 0.30))) (fmul c (fl 0.15)))
                   (fmul d (fl 0.10)) \<le> 95"
    using fadd_range [OF s2 pd] by (simp add: fadd_def fl_score)
  show ?thesis
    using fadd_range [OF s3 pe] by (simp add: fadd_def fl_score)
qed

lemma weights_float_sum: "foldl fadd 0 (map snd weights) = 1"
  by (simp add: weights_def weight_literals_def fadd_def fl_score)

lemma example_sections:
  "get_section (sections example_resume) ''skills'' = ''Python, SQL''"
  "get_section (sections example_resume) ''experience'' = []"
  "get_section (sections example_resume) ''projects'' = []"
  "get_section (sections example_resume) ''certifications'' = ''AWS''"
  "get_section (sections example_resume) ''education'' = []"
  "raw_text example_resume = ''Python developer''"
  by (simp_all add: example_resume_def get_section_def)

lemma jd_words: "findall_words (lower ''Python and Docker'') = [''python'', ''and'', ''docker'']"
  by (simp add: findall_words_def text_eval)

lemma jd_keywords:
  "extract_keywords fallback_stop_words ''Python and Docker'' = {''python'', ''docker''}"
  by (simp add: extract_keywords_def jd_words fallback_stop_words_def)

lemma resume_lower:
  "lower ''Python developer Python, SQL'' = ''python developer python, sql''"
  by (simp add: text_eval)

lemma resume_words:
  "findall_words (lower ''python developer python, sql'')
     = [''python'', ''developer'', ''python'', ''sql'']"
  by (simp add: findall_words_def text_eval)

lemma resume_keywords:
  "extract_keywords fallback_stop_words ''python developer python, sql''
     = {''python'', ''developer'', ''sql''}"
  by (auto simp: extract_keywords_def resume_words fallback_stop_words_def)

lemma example_keywords:
  "keywords_score (score_keywords set_to_list fallback_stop_words example_resume
     ''Python and Docker'') = 50"
  by (simp add: score_keywords_def example_sections resume_lower jd_keywords resume_keywords
      Let_def int_div_def fmul_def fl_score)

lemma strip_empty: "strip [] = []"
  by (simp add: strip_def)

lemma strip_aws: "strip ''AWS'' = ''AWS''" "strip ''Python, SQL'' = ''Python, SQL''"
  by (simp_all add: strip_def is_space_def)

lemma example_formatting:
  "formatting_score (score_formatting (sections example_resume))
     = 2345624805922133 / 70368744177664"
  by (simp add: score_formatting_def example_sections strip_empty strip_aws Let_def
      int_div_def fmul_def fl_score)

lemma example_score:
  "overall_score (calculate_score set_to_list fallback_stop_words example_resume
     ''Python and Docker'') = fl (3167 / 100)"
  by (simp add: calculate_score_def example_keywords example_formatting example_sections
      score_experience_def score_projects_def score_certifications_def strip_empty strip_aws
      weighted_total_def weight_values Let_def fadd_def fmul_def fl_score
      round2_def round_half_even_def)

text \<open>
  Sub-scores whose exact weighted sum is 26.875: 16 of 96 target keywords found, 3 of
  them in the experience section, more than 100 words of projects, no certification, two
  of the three standard sections. The float sum is 26.874999999999996, so the overall
  score is the double 26.87.
\<close>

lemma overall_score_2687:
  "round2 (fadd (fadd (fadd (fadd
       (fmul (min (fmul (int_div 16 96) 100) 100) (weight ''keywords''))
       (fmul (min (fmul (fdiv (float_of_nat 3) (fmul (float_of_nat 96) 0.5)) 100) 100)
          (weight ''experience'')))
       (fmul 100 (weight ''projects'')))
       (fmul 0 (weight ''certifications'')))
       (fmul (fmul (int_div 2 3) 100) (weight ''formatting'')))
     = fl (2687 / 100)"
  by (simp add: weight_values float_ops fl_score round2_def round_half_even_def)

section \<open>Claims about compatibility scoring\<close>

text \<open>
  C7: the five weights (keywords 0.40, experience 0.30, projects 0.15, certifications
  0.10, formatting 0.05) add up to 1, as decimals and as the doubles the code holds added
  from left to right. For every document and target text (and every stop-word set and
  set order) the breakdown holds the five sub-scores computed from the document, the
  overall score is their weighted sum, evaluated in double precision in the order of the
  source and rounded to two decimals by \<open>round\<close>, and it lies in \<open>[0, 100]\<close>.
\<close>

theorem overall_score_weighted:
  "sum_list (map snd weight_literals) = 1
   \<and> foldl fadd 0 (map snd weights) = 1
   \<and> breakdown (calculate_score set_to_list stop_words rd jd) =
       \<lparr>breakdown_keywords = score_keywords set_to_list stop_words rd jd,
        breakdown_experience =
          score_experience set_to_list stop_words (get_section (sections rd) ''experience'') jd,
        breakdown_projects = score_projects (get_section (sections rd) ''projects''),
        breakdown_certifications = score_certifications (get_section (sections rd) ''certifications''),
        breakdown_formatting = score_formatting (sections rd)\<rparr>
   \<and> overall_score (calculate_score set_to_list stop_words rd jd) =
       round2 (fadd (fadd (fadd (fadd
         (fmul (keywords_score (score_keywords set_to_list stop_words rd jd)) (fl 0.40))
         (fmul (experience_score (score_experience set_to_list stop_words
                  (get_section (sections rd) ''experience'') jd)) (fl 0.30)))
         (fmul (projects_score (score_projects (get_section (sections rd) ''projects'')))
            (fl 0.15)))
         (fmul (score_certifications (get_section (sections rd) ''certifications'')) (fl 0.10)))
         (fmul (formatting_score (score_formatting (sections rd))) (fl 0.05)))
   \<and> 0 \<le> overall_score (calculate_score set_to_list stop_words rd jd)
   \<and> overall_score (calculate_score set_to_list stop_words rd jd) \<le> 100"
proof -
  let ?r = "calculate_score set_to_list stop_words rd jd"
  let ?t = "fadd (fadd (fadd (fadd
         (fmul (keywords_score (score_keywords set_to_list stop_words rd jd)) (fl 0.40))
         (fmul (experience_score (score_experience set_to_list stop_words
                  (get_section (sections rd) ''experience'') jd)) (fl 0.30)))
         (fmul (projects_score (score_projects (get_section (sections rd) ''projects'')))
            (fl 0.15)))
         (fmul (score_certifications (get_section (sections rd) ''certifications'')) (fl 0.10)))
         (fmul (formatting_score (score_formatting (sections rd))) (fl 0.05))"
  have w: "sum_list (map snd weight_literals) = 1" by (simp add: weight_literals_def)
  have b: "breakdown ?r =
       \<lparr>breakdown_keywords = score_keywords set_to_list stop_words rd jd,
        breakdown_experience =
          score_experience set_to_list stop_words (get_section (sections rd) ''experience'') jd,
        breakdown_projects = score_projects (get_section (sections rd) ''projects''),
        breakdown_certifications = score_certifications (get_section (sections rd) ''certifications''),
        breakdown_formatting = score_formatting (sections rd)\<rparr>"
    by (simp add: calculate_score_def Let_def)
  have o: "overall_score ?r = round2 ?t"
    unfolding calculate_score_def Let_def weighted_total_def weight_values by simp
  have "0 \<le> ?t \<and> ?t \<le> 100"
    by (rule weighted_range [OF keywords_score_range experience_score_range
          projects_score_range certifications_score_range formatting_score_range])
  then have "0 \<le> round2 ?t \<and> round2 ?t \<le> 100" using round2_range by blast
  with w weights_float_sum b o show ?thesis by (simp only: simp_thms)
qed

theorem overall_score_weighted_witness:
  "overall_score (calculate_score sorted_list_of_set fallback_stop_words example_resume
     ''Python and Docker'') = fl (3167 / 100)
   \<and> (0 :: real) \<le> fl (3167 / 100) \<and> fl (3167 / 100) \<le> 100"
  using overall_score_weighted [of sorted_list_of_set fallback_stop_words example_resume
      "''Python and Docker''"]
  by (simp add: example_score)

text \<open>
  C8: when the experience section is empty or consists of white space only,
  \<open>_score_experience\<close> returns the early result (score 0 with the message), for every
  target text and stop-word set: the branch that divides is not taken, also when the
  target text has no token. The breakdown of \<open>calculate_score\<close> carries that score 0.
\<close>

theorem empty_experience_scores_zero:
  assumes "strip exp_text = []"
  shows "score_experience set_to_list stop_words exp_text jd =
           \<lparr>experience_score = 0, experience_message = Some ''No experience section found.'',
            relevant_terms_found = None\<rparr>
       \<and> (get_section (sections rd) ''experience'' = exp_text \<longrightarrow>
            experience_score (breakdown_experience (breakdown
              (calculate_score set_to_list stop_words rd jd))) = 0)"
  using assms by (simp add: score_experience_def calculate_score_def Let_def)

theorem empty_experience_scores_zero_witness:
  "strip ''  '' = []
   \<and> score_experience sorted_list_of_set fallback_stop_words ''  '' [] =
       \<lparr>experience_score = 0, experience_message = Some ''No experience section found.'',
        relevant_terms_found = None\<rparr>
   \<and> get_section (sections \<lparr>raw_text = ''Python'', sections = [''experience'' \<mapsto> ''  '']\<rparr>)
         ''experience'' = ''  ''
   \<and> experience_score (breakdown_experience (breakdown
         (calculate_score sorted_list_of_set fallback_stop_words
            \<lparr>raw_text = ''Python'', sections = [''experience'' \<mapsto> ''  '']\<rparr> []))) = 0"
proof -
  have blank: "strip ''  '' = []" by (simp add: strip_def is_space_def)
  have sec: "get_section (sections \<lparr>raw_text = ''Python'', sections = [''experience'' \<mapsto> ''  '']\<rparr>)
      ''experience'' = ''  ''"
    by (simp add: get_section_def)
  from empty_experience_scores_zero [OF blank, of sorted_list_of_set fallback_stop_words "[]"
      "\<lparr>raw_text = ''Python'', sections = [''experience'' \<mapsto> ''  '']\<rparr>"] blank sec
  show ?thesis by blast
qed

section \<open>Claim about role retrieval\<close>

text \<open>
  C9: on a store with no indexed role (no index yet, or an index holding no vector)
  \<open>search_similar_roles\<close> returns the empty list, for every query and every \<open>k\<close>, and
  raises nothing: neither the model nor the index search is reached.
\<close>

theorem search_empty_store:
  assumes "ntotal store = 0"
  shows "search_similar_roles vector_search_available search store query k = Inr []"
  using assms by (simp add: search_similar_roles_def)

theorem search_empty_store_witness:
  "ntotal \<lparr>index = Some [], roles_metadata = [''Data Scientist''], model = None\<rparr> = 0
   \<and> search_similar_roles True failing_search
        \<lparr>index = Some [], roles_metadata = [''Data Scientist''], model = None\<rparr> ''anything'' 3
       = Inr []
   \<and> ntotal \<lparr>index = None, roles_metadata = ([] :: string list), model = None\<rparr> = 0"
proof -
  have z: "ntotal \<lparr>index = Some [], roles_metadata = [''Data Scientist''], model = None\<rparr> = 0"
    by (simp add: ntotal_def)
  from search_empty_store [OF z, of True failing_search "''anything''" 3] z
  show ?thesis by (simp add: ntotal_def)
qed

section \<open>Facts about segmentation\<close>

lemmas match_eval = matches_at_def at_boundary_def is_word_def

lemmas line_eval = header_line_def line_start_def line_end_def slice_def newline_def strip_def
  is_space_def

lemma no_headers: "header_indices ''hi'' = []"
  by (simp add: header_indices_def sections_patterns_def pattern_headers_def match_eval)

lemma pattern_headers_name: "h \<in> set (pattern_headers txt name p) \<Longrightarrow> snd h = name"
  by (auto simp: pattern_headers_def split: option.splits)

lemma header_names_patterns:
  "h \<in> set (header_indices txt) \<Longrightarrow> snd h \<in> fst ` set sections_patterns"
  unfolding header_indices_def by (auto dest!: pattern_headers_name) force

lemma section_names_patterns: "fst ` set sections_patterns = section_names"
  by (simp add: sections_patterns_def section_names_def)

lemma header_names: "snd ` set (header_indices txt) \<subseteq> section_names"
  using header_names_patterns section_names_patterns by blast

lemma slice_sections_step:
  "\<exists>v. slice_sections txt ((start_idx, section_name) # rest) secs
        = slice_sections txt rest (secs(section_name \<mapsto> v))"
  by (simp only: slice_sections.simps Let_def) blast

lemma dom_slice_sections:
  "dom (slice_sections txt hs secs) = dom secs \<union> snd ` set hs"
proof (induction hs arbitrary: secs)
  case Nil
  show ?case by simp
next
  case (Cons h rest)
  obtain start_idx section_name where h: "h = (start_idx, section_name)" by (cases h) auto
  obtain v where step: "slice_sections txt (h # rest) secs
      = slice_sections txt rest (secs(section_name \<mapsto> v))"
    unfolding h using slice_sections_step by blast
  have "dom (secs(section_name \<mapsto> v)) = insert section_name (dom secs)" by simp
  then show ?case unfolding step Cons.IH by (auto simp: h)
qed

lemma slice_sections_untouched:
  "name \<notin> snd ` set hs \<Longrightarrow> slice_sections txt hs secs name = secs name"
proof (induction hs arbitrary: secs)
  case Nil
  show ?case by simp
next
  case (Cons h rest)
  obtain start_idx section_name where h: "h = (start_idx, section_name)" by (cases h) auto
  obtain v where step: "slice_sections txt (h # rest) secs
      = slice_sections txt rest (secs(section_name \<mapsto> v))"
    unfolding h using slice_sections_step by blast
  from Cons.prems have "name \<noteq> section_name" and rest: "name \<notin> snd ` set rest"
    by (auto simp: h)
  then have "(secs(section_name \<mapsto> v)) name = secs name" by simp
  then show ?case unfolding step using Cons.IH [OF rest] by simp
qed

lemma dom_empty_sections: "dom empty_sections = insert ''others'' section_names"
  by (auto simp: empty_sections_def section_names_def)

lemma empty_sections_value:
  "name \<in> insert ''others'' section_names \<Longrightarrow> empty_sections name = Some []"
  by (auto simp: empty_sections_def section_names_def)

section \<open>Claims about segmentation\<close>

text \<open>
  C1: the claim says that a section adds at most one header, the search of its synonyms
  stopping at the first one that matches on a short line. In the code the \<open>break\<close>
  leaves the loop over the matches of one pattern only, so the next synonym is searched
  as well: on the text below both \<open>SKILLS\<close> and \<open>Skills\<close> become headers of the skills
  section, and the section ends up holding only what follows the second one.
\<close>

theorem skills_header_found_twice:
  "header_indices ''SKILLS\<newline>a\<newline>Skills\<newline>b'' = [(0, ''skills''), (9, ''skills'')]
   \<and> segment_sections ''SKILLS\<newline>a\<newline>Skills\<newline>b'' = empty_sections(''skills'' \<mapsto> ''b'')"
proof -
  have headers: "header_indices ''SKILLS\<newline>a\<newline>Skills\<newline>b''
      = [(0, ''skills''), (9, ''skills'')]"
    by (simp add: header_indices_def sections_patterns_def pattern_headers_def match_eval
        line_eval)
  then show ?thesis
    by (simp add: segment_sections_def section_content_def slice_def newline_def strip_def
        is_space_def)
qed

text \<open>
  C3: for every text the result has exactly the six keys (the sixth is spelled \<open>others\<close>
  in the code), a section for which no header was accepted holds the empty string, and
  when no header is found at all the whole text is under \<open>others\<close> and the five named
  sections are empty.
\<close>

theorem segment_sections_keys:
  "dom (segment_sections text) =
     {''education'', ''experience'', ''skills'', ''projects'', ''certifications'', ''others''}
   \<and> (\<forall>name \<in> {''education'', ''experience'', ''skills'', ''projects'', ''certifications''}.
        name \<notin> snd ` set (header_indices text) \<longrightarrow> segment_sections text name = Some [])
   \<and> (header_indices text = [] \<longrightarrow>
        segment_sections text = empty_sections(''others'' \<mapsto> text)
        \<and> segment_sections text ''others'' = Some text)"
proof -
  let ?hs = "sort (header_indices text)"
  have names: "snd ` set ?hs \<subseteq> section_names" using header_names [of "text"] by simp
  have keys: "dom (segment_sections text) = insert ''others'' section_names"
  proof (cases "?hs = []")
    case True
    then show ?thesis by (simp add: segment_sections_def dom_empty_sections)
  next
    case False
    then show ?thesis
      using names by (auto simp: segment_sections_def dom_slice_sections dom_empty_sections)
  qed
  have absent: "segment_sections text name = Some []"
    if "name \<in> section_names" and "name \<notin> snd ` set (header_indices text)" for name
  proof (cases "?hs = []")
    case True
    moreover have "name \<noteq> ''others''" using that(1) by (auto simp: section_names_def)
    ultimately show ?thesis using that(1)
      by (simp add: segment_sections_def empty_sections_value)
  next
    case False
    have "name \<notin> snd ` set ?hs" using that(2) by simp
    then show ?thesis using False that(1)
      by (simp add: segment_sections_def slice_sections_untouched empty_sections_value)
  qed
  have none: "segment_sections text = empty_sections(''others'' \<mapsto> text)"
    if "header_indices text = []"
    using that by (simp add: segment_sections_def)
  show ?thesis
    using keys absent none by (auto simp: section_names_def)
qed

theorem segment_sections_keys_witness:
  "header_indices ''hi'' = []
   \<and> ''skills'' \<notin> snd ` set (header_indices ''hi'')
   \<and> dom (segment_sections ''hi'') =
       {''education'', ''experience'', ''skills'', ''projects'', ''certifications'', ''others''}
   \<and> segment_sections ''hi'' ''skills'' = Some []
   \<and> segment_sections ''hi'' ''others'' = Some ''hi''"
proof -
  note keys = segment_sections_keys [of "''hi''"]
  have absent: "''skills'' \<notin> snd ` set (header_indices ''hi'')"
    by (simp add: no_headers)
  have mem: "''skills'' \<in> {''education'', ''experience'', ''skills'', ''projects'',
      ''certifications''}"
    by simp
  note d = keys [THEN conjunct1]
  note a = keys [THEN conjunct2, THEN conjunct1]
  note b = keys [THEN conjunct2, THEN conjunct2]
  have s: "segment_sections ''hi'' ''skills'' = Some []"
    by (rule a [THEN bspec, OF mem, THEN mp, OF absent])
  have o: "segment_sections ''hi'' ''others'' = Some ''hi''"
    by (rule b [THEN mp, OF no_headers, THEN conjunct2])
  from no_headers absent d s o show ?thesis by (intro conjI)
qed

end
